theory Spec2Isabelle
  imports Complex_Main "HOL-Library.Word"
begin

unbundle bit_operations_syntax

section \<open>Python values used by the driver\<close>

text \<open>
  A \<^verbatim>\<open>bytes\<close> object is a list of 8-bit words; indexing it yields a Python int
  in the range 0..255 (\<open>unat\<close> of the word). Python ints are unbounded and are
  modelled by \<open>nat\<close> where the source can only produce non-negative values and by
  \<open>int\<close> otherwise. A Python float is kept as the expression that computes it
  (see \<open>pyfloat\<close> below): nothing is assumed about the rounding of a double.
\<close>

type_synonym byte = "8 word"

datatype error =
    IndexError
  | ValueError
  | UnicodeDecodeError
  | ZeroDivisionError
  | OSError
  | BYDHVSTimeoutError
  | BYDHVSConnectionError

definition bind_err :: "error + 'a \<Rightarrow> ('a \<Rightarrow> error + 'b) \<Rightarrow> error + 'b" where
  "bind_err m f = (case m of Inl e \<Rightarrow> Inl e | Inr x \<Rightarrow> f x)"

text \<open>\<^verbatim>\<open>data[i]\<close> for a non-negative constant index: raises IndexError out of range.\<close>

definition getitem :: "byte list \<Rightarrow> nat \<Rightarrow> error + nat" where
  "getitem data i = (if i < length data then Inr (unat (data ! i)) else Inl IndexError)"

text \<open>
  \<^verbatim>\<open>xs[lo:hi]\<close>: a negative bound counts from the end, both bounds are clamped to
  the list, and the slice is empty when the upper bound is not above the lower one.
  A slice never raises.
\<close>

definition slice_index :: "nat \<Rightarrow> int \<Rightarrow> nat" where
  "slice_index n i = (if i < 0 then nat (max (i + int n) 0) else min (nat i) n)"

definition py_slice :: "'a list \<Rightarrow> int \<Rightarrow> int \<Rightarrow> 'a list" where
  "py_slice xs lo hi =
     (let a = slice_index (length xs) lo; b = slice_index (length xs) hi
      in take (b - a) (drop a xs))"

text \<open>\<^verbatim>\<open>int.from_bytes(bs, byteorder='big', signed=...)\<close>; the empty string gives 0.\<close>

definition from_bytes_us :: "byte list \<Rightarrow> nat" where
  "from_bytes_us bs = foldl (\<lambda>a b. a * 256 + unat b) 0 bs"

definition from_bytes_si :: "byte list \<Rightarrow> int" where
  "from_bytes_si bs =
     (let u = int (from_bytes_us bs); n = length bs
      in if 0 < n \<and> 2 ^ (8 * n - 1) \<le> u then u - 2 ^ (8 * n) else u)"

section \<open>Checksum\<close>

text \<open>
  Modelled from the spec: \<^verbatim>\<open>CRC16 = crcmod.predefined.mkCrcFun('modbus')\<close> comes from
  the external library crcmod, which is not part of the repository. The spec names the
  algorithm: CRC-16/MODBUS, reflected, polynomial 0xA001, initial value 0xFFFF, no final
  xor. Every byte is xored into the low byte of the register, which is then shifted
  right eight times, xoring the polynomial in whenever a one is shifted out.
\<close>

definition crc_shift :: "16 word \<Rightarrow> 16 word" where
  "crc_shift c = (if bit c 0 then drop_bit 1 c XOR 0xA001 else drop_bit 1 c)"

definition crc_update :: "16 word \<Rightarrow> byte \<Rightarrow> 16 word" where
  "crc_update c b =
     crc_shift (crc_shift (crc_shift (crc_shift
       (crc_shift (crc_shift (crc_shift (crc_shift (c XOR ucast b))))))))"

definition CRC16 :: "byte list \<Rightarrow> 16 word" where
  "CRC16 data = foldl crc_update 0xFFFF data"

text \<open>The two checksum bytes as they travel on the wire: low byte first.\<close>

definition crc_bytes :: "16 word \<Rightarrow> byte list" where
  "crc_bytes c = [ucast c, ucast (drop_bit 8 c)]"

definition mk_frame :: "byte list \<Rightarrow> byte list" where
  "mk_frame payload = payload @ crc_bytes (CRC16 payload)"

section \<open>Packet validation\<close>

text \<open>
  \<^verbatim>\<open>_check_packet\<close>, with its early returns in the order of the source. The indexed
  reads stand behind the length test, so none of them can raise.
\<close>

definition check_packet :: "byte list \<Rightarrow> bool" where
  "check_packet data =
     (if length data < 5 then False
      else if unat (data ! 0) \<noteq> 1 then False
      else
        let function_code = unat (data ! 1);
            data_length = unat (data ! 2);
            packet_length = data_length + 5
        in if function_code = 3 then
             (if packet_length \<noteq> length data then False else CRC16 data = 0)
           else if function_code \<noteq> 16 then False
           else CRC16 data = 0)"

section \<open>Field decoders\<close>

definition buf2int16_si :: "byte list \<Rightarrow> nat \<Rightarrow> int" where
  "buf2int16_si data pos = from_bytes_si (py_slice data (int pos) (int pos + 2))"

definition buf2int16_us :: "byte list \<Rightarrow> nat \<Rightarrow> nat" where
  "buf2int16_us data pos = from_bytes_us (py_slice data (int pos) (int pos + 2))"

text \<open>
  \<^verbatim>\<open>_buf2int32_us\<close> indexes the buffer, in the order \<open>pos + 2\<close>, \<open>pos + 3\<close>,
  \<open>pos\<close>, \<open>pos + 1\<close>, so it raises IndexError when four bytes are not there.
\<close>

definition buf2int32_us :: "byte list \<Rightarrow> nat \<Rightarrow> error + nat" where
  "buf2int32_us data pos =
     bind_err (getitem data (pos + 2)) (\<lambda>b2.
     bind_err (getitem data (pos + 3)) (\<lambda>b3.
     bind_err (getitem data pos) (\<lambda>b0.
     bind_err (getitem data (pos + 1)) (\<lambda>b1.
       Inr (b2 * 16777216 + b3 * 65536 + b0 * 256 + b1)))))"

section \<open>Strings and numbers\<close>

text \<open>Decimal rendering of a non-negative int, as an f-string does it.\<close>

definition digit_char :: "nat \<Rightarrow> char" where
  "digit_char n = char_of (48 + n)"

fun str_nat :: "nat \<Rightarrow> string" where
  "str_nat n =
     (if n < 10 then [digit_char n] else str_nat (n div 10) @ [digit_char (n mod 10)])"

declare str_nat.simps [simp del]

text \<open>\<^verbatim>\<open>int(s)\<close> on a string of decimal digits.\<close>

definition int_of_str :: "string \<Rightarrow> nat" where
  "int_of_str s = foldl (\<lambda>a c. a * 10 + (of_char c - 48)) 0 s"

text \<open>\<^verbatim>\<open>bytes.hex()\<close>: two lower-case hexadecimal digits per byte.\<close>

definition hex_char :: "nat \<Rightarrow> char" where
  "hex_char n = (if n < 10 then char_of (48 + n) else char_of (87 + n))"

definition hex :: "byte list \<Rightarrow> string" where
  "hex bs = concat (map (\<lambda>b. [hex_char (unat b div 16), hex_char (unat b mod 16)]) bs)"

definition hex_val :: "char \<Rightarrow> nat" where
  "hex_val c = (if of_char c < (58 :: nat) then of_char c - 48 else of_char c - 87)"

text \<open>\<^verbatim>\<open>int(s, 16)\<close> on the output of \<^verbatim>\<open>hex()\<close>: the empty string is a ValueError.\<close>

definition int_of_hex :: "string \<Rightarrow> error + nat" where
  "int_of_hex s =
     (if s = [] then Inl ValueError else Inr (foldl (\<lambda>a c. a * 16 + hex_val c) 0 s))"

text \<open>\<^verbatim>\<open>bin(n).count('1')\<close>: the number of one bits.\<close>

fun popcount :: "nat \<Rightarrow> nat" where
  "popcount n = (if n = 0 then 0 else n mod 2 + popcount (n div 2))"

declare popcount.simps [simp del]

text \<open>\<^verbatim>\<open>str.strip()\<close> removes white space at both ends; among ASCII characters
  Python counts 9 to 13, 28 to 31 and 32 as white space.\<close>

definition py_isspace :: "char \<Rightarrow> bool" where
  "py_isspace c =
     (let n = (of_char c :: nat) in (9 \<le> n \<and> n \<le> 13) \<or> (28 \<le> n \<and> n \<le> 32))"

definition strip :: "string \<Rightarrow> string" where
  "strip s = rev (dropWhile py_isspace (rev (dropWhile py_isspace s)))"

text \<open>\<^verbatim>\<open>bytes.decode('ascii')\<close>: a byte above 127 is a UnicodeDecodeError.\<close>

definition decode_ascii :: "byte list \<Rightarrow> error + string" where
  "decode_ascii bs =
     (if list_all (\<lambda>b. unat b < 128) bs then Inr (map (\<lambda>b. char_of (unat b)) bs)
      else Inl UnicodeDecodeError)"

fun join_sep :: "string \<Rightarrow> string list \<Rightarrow> string" where
  "join_sep sep [] = []"
| "join_sep sep [x] = x"
| "join_sep sep (x # y # ys) = x @ sep @ join_sep sep (y # ys)"

text \<open>
  \<^verbatim>\<open>"; ".join([err for i, err in enumerate(names) if flags & (1 << i)]) or "No Error"\<close>.
  The flags may be negative; \<open>AND\<close> on \<open>int\<close> is two's complement, as in Python.
\<close>

definition flag_names :: "string list \<Rightarrow> int \<Rightarrow> string list" where
  "flag_names names flags =
     map snd (filter (\<lambda>(i, err). flags AND push_bit i 1 \<noteq> 0) (enumerate 0 names))"

definition flag_string :: "string list \<Rightarrow> int \<Rightarrow> string" where
  "flag_string names flags =
     (let joined = join_sep ''; '' (flag_names names flags)
      in if joined = [] then ''No Error'' else joined)"

subsection \<open>Floats\<close>

text \<open>
  \<open>Quotient a b\<close> is the float \<^verbatim>\<open>a / b\<close> of two ints with \<open>b\<close> not 0 (here
  \<open>b\<close> is 10, a charge counter below \<open>2 ^ 32\<close>, or 1 for the initial \<^verbatim>\<open>0.0\<close>).
  Such a float is zero exactly when \<open>a\<close> is 0, which is what a truth test and a
  division by it depend on.
\<close>

datatype quotient = Quotient int int

definition quotient_is_zero :: "quotient \<Rightarrow> bool" where
  "quotient_is_zero q = (case q of Quotient a b \<Rightarrow> a = 0)"

text \<open>
  Every other float is kept as the expression that computes it: an int (or the float
  equal to it, as the literal \<^verbatim>\<open>100.0\<close>), a quotient, \<^verbatim>\<open>x / y\<close>, \<^verbatim>\<open>x * y\<close>,
  \<^verbatim>\<open>x - y\<close> and \<^verbatim>\<open>round(x, ndigits)\<close>. The value of the double is the one Python
  computes for that expression; the model attributes no digits to it.
\<close>

datatype pyfloat =
    FNum int
  | FOf quotient
  | FDiv pyfloat pyfloat
  | FMul pyfloat pyfloat
  | FSub pyfloat pyfloat
  | FRound pyfloat nat

text \<open>
  \<^verbatim>\<open>x / q\<close> for a float divisor, and \<^verbatim>\<open>a / b\<close> for two ints: true division
  raises ZeroDivisionError on a zero divisor.
\<close>

definition py_truediv :: "pyfloat \<Rightarrow> quotient \<Rightarrow> error + pyfloat" where
  "py_truediv x q =
     (if quotient_is_zero q then Inl ZeroDivisionError else Inr (FDiv x (FOf q)))"

definition int_truediv :: "int \<Rightarrow> int \<Rightarrow> error + pyfloat" where
  "int_truediv a b = (if b = 0 then Inl ZeroDivisionError else Inr (FOf (Quotient a b)))"

text \<open>
  The value of an expression in exact arithmetic, where it has one: none is given to a
  division by zero or to a decimal rounding, which depends on the double. An operation
  whose exact result is a double (as 15000 / 200) yields exactly that double.
\<close>

fun exact :: "pyfloat \<Rightarrow> rat option" where
  "exact (FNum n) = Some (of_int n)"
| "exact (FOf (Quotient a b)) = (if b = 0 then None else Some (of_int a / of_int b))"
| "exact (FDiv x y) =
     (case (exact x, exact y) of
        (Some u, Some v) \<Rightarrow> if v = 0 then None else Some (u / v)
      | _ \<Rightarrow> None)"
| "exact (FMul x y) =
     (case (exact x, exact y) of (Some u, Some v) \<Rightarrow> Some (u * v) | _ \<Rightarrow> None)"
| "exact (FSub x y) =
     (case (exact x, exact y) of (Some u, Some v) \<Rightarrow> Some (u - v) | _ \<Rightarrow> None)"
| "exact (FRound x ndigits) = None"

section \<open>The driver object\<close>

text \<open>
  One dictionary of \<^verbatim>\<open>tower_attributes\<close>. State 2 creates every tower with the two
  list keys; the other keys appear when \<^verbatim>\<open>_parse_packet5\<close> assigns them, so they are
  optional here.
\<close>

record tower =
  t_no :: "nat option"
  t_max_cell_voltage_mv :: "int option"
  t_min_cell_voltage_mv :: "int option"
  t_max_cell_voltage_cell :: "nat option"
  t_min_cell_voltage_cell :: "nat option"
  t_max_cell_temp :: "nat option"
  t_min_cell_temp :: "nat option"
  t_max_cell_temp_cell :: "nat option"
  t_min_cell_temp_cell :: "nat option"
  t_balancing_status :: "string option"
  t_balancing_count :: "nat option"
  t_charge_total :: "nat option"
  t_discharge_total :: "nat option"
  t_eta :: "pyfloat option"
  t_battery_volt :: "pyfloat option"
  t_out_volt :: "pyfloat option"
  t_hvs_soc_diagnosis :: "pyfloat option"
  t_soh :: "int option"
  t_state :: "string option"
  t_state_string :: "string option"
  t_cell_voltages :: "int list"
  t_cell_temperatures :: "nat list"

definition new_tower :: tower where
  "new_tower =
     \<lparr> t_no = None, t_max_cell_voltage_mv = None, t_min_cell_voltage_mv = None,
       t_max_cell_voltage_cell = None, t_min_cell_voltage_cell = None,
       t_max_cell_temp = None, t_min_cell_temp = None,
       t_max_cell_temp_cell = None, t_min_cell_temp_cell = None,
       t_balancing_status = None, t_balancing_count = None,
       t_charge_total = None, t_discharge_total = None, t_eta = None,
       t_battery_volt = None, t_out_volt = None, t_hvs_soc_diagnosis = None,
       t_soh = None, t_state = None, t_state_string = None,
       t_cell_voltages = [], t_cell_temperatures = [] \<rparr>"

text \<open>\<^verbatim>\<open>hvs_batt_type\<close> and \<^verbatim>\<open>hvs_inv_type\<close> start as the empty string and later
  hold an int (or the string LVS).\<close>

datatype pyval = PStr string | PInt nat

text \<open>
  The attributes of a \<^verbatim>\<open>BYDHVS\<close> object, in the order of \<^verbatim>\<open>__init__\<close>.
  \<open>reader\<close> and \<open>writer\<close> say whether \<^verbatim>\<open>_reader\<close> and \<^verbatim>\<open>_writer\<close> hold a
  stream (are not None); \<open>state\<close> is \<^verbatim>\<open>_state\<close>. The request frames and the name
  tables are never assigned after \<^verbatim>\<open>__init__\<close> and are constants below.
\<close>

record bydhvs =
  reader :: bool
  writer :: bool
  state :: nat
  hvs_soc :: int
  hvs_max_volt :: pyfloat
  hvs_min_volt :: pyfloat
  hvs_soh :: int
  hvs_serial :: string
  hvs_bmu :: string
  hvs_bmu_a :: string
  hvs_bmu_b :: string
  hvs_bms :: "nat list"
  hvs_modules :: nat
  hvs_module_cell_count :: nat
  hvs_module_cell_temp_count :: nat
  hvs_towers :: nat
  hvs_grid :: string
  hvs_current :: pyfloat
  hvs_batt_volt :: pyfloat
  hvs_max_temp :: int
  hvs_min_temp :: int
  hvs_batt_temp :: int
  hvs_error :: int
  hvs_param_t :: string
  hvs_out_volt :: pyfloat
  hvs_power :: pyfloat
  hvs_diff_volt :: pyfloat
  hvs_error_string :: string
  hvs_charge_total :: quotient
  hvs_discharge_total :: quotient
  hvs_eta :: pyfloat
  hvs_batt_type_from_serial :: string
  hvs_batt_type :: pyval
  hvs_batt_type_string :: string
  hvs_inv_type :: pyval
  hvs_num_cells :: nat
  hvs_num_temps :: nat
  tower_attributes :: "tower list"
  hvs_inv_type_string :: string
  balancing_status :: string
  balancing_count :: nat
  max_cell_voltage_mv :: int
  min_cell_voltage_mv :: int
  max_cell_voltage_cell :: nat
  min_cell_voltage_cell :: nat
  max_cell_temp_cell :: nat
  min_cell_temp_cell :: nat
  current_tower :: nat
  state_action_list :: "nat list"

definition MAX_CELLS :: nat where "MAX_CELLS = 160"
definition MAX_TEMPS :: nat where "MAX_TEMPS = 64"

text \<open>The object as \<^verbatim>\<open>__init__\<close> leaves it.\<close>

definition init_bydhvs :: bydhvs where
  "init_bydhvs =
     \<lparr> reader = False, writer = False, state = 0,
       hvs_soc = 0, hvs_max_volt = FNum 0, hvs_min_volt = FNum 0, hvs_soh = 0,
       hvs_serial = [], hvs_bmu = [], hvs_bmu_a = [], hvs_bmu_b = [], hvs_bms = [],
       hvs_modules = 0, hvs_module_cell_count = 0, hvs_module_cell_temp_count = 0,
       hvs_towers = 0, hvs_grid = [], hvs_current = FNum 0, hvs_batt_volt = FNum 0,
       hvs_max_temp = 0, hvs_min_temp = 0, hvs_batt_temp = 0, hvs_error = 0,
       hvs_param_t = [], hvs_out_volt = FNum 0, hvs_power = FNum 0,
       hvs_diff_volt = FNum 0,
       hvs_error_string = [], hvs_charge_total = Quotient 0 1,
       hvs_discharge_total = Quotient 0 1,
       hvs_eta = FNum 0, hvs_batt_type_from_serial = [], hvs_batt_type = PStr [],
       hvs_batt_type_string = [], hvs_inv_type = PStr [], hvs_num_cells = 0,
       hvs_num_temps = 0, tower_attributes = [], hvs_inv_type_string = [],
       balancing_status = [], balancing_count = 0, max_cell_voltage_mv = 0,
       min_cell_voltage_mv = 0, max_cell_voltage_cell = 0, min_cell_voltage_cell = 0,
       max_cell_temp_cell = 0, min_cell_temp_cell = 0, current_tower = 0,
       state_action_list = [] \<rparr>"

subsection \<open>Constant tables\<close>

definition errors :: "string list" where
  "errors =
    [''High temperature during charging (cells)'',
     ''Low temperature during charging (cells)'',
     ''Overcurrent during discharging'',
     ''Overcurrent during charging'',
     ''Main circuit failure'',
     ''Short circuit alarm'',
     ''Cell imbalance'',
     ''Current sensor error'',
     ''Battery overvoltage'',
     ''Battery undervoltage'',
     ''Cell overvoltage'',
     ''Cell undervoltage'',
     ''Voltage sensor error'',
     ''Temperature sensor error'',
     ''High temperature during discharging (cells)'',
     ''Low temperature during discharging (cells)'']"

definition stat_tower :: "string list" where
  "stat_tower =
    [''Battery Over Voltage'',
     ''Battery Under Voltage'',
     ''Cells OverVoltage'',
     ''Cells UnderVoltage'',
     ''Cells Imbalance'',
     ''Charging High Temperature(Cells)'',
     ''Charging Low Temperature(Cells)'',
     ''DisCharging High Temperature(Cells)'',
     ''DisCharging Low Temperature(Cells)'',
     ''Charging OverCurrent(Cells)'',
     ''DisCharging OverCurrent(Cells)'',
     ''Charging OverCurrent(Hardware)'',
     ''Short Circuit'',
     ''Inversly Connection'',
     ''Interlock switch Abnormal'',
     ''AirSwitch Abnormal'']"

definition inverters :: "string list" where
  "inverters =
    [''Fronius HV'', ''Goodwe HV'', ''Fronius HV'', ''Kostal HV'', ''Goodwe HV'',
     ''SMA SBS3.7/5.0'', ''Kostal HV'', ''SMA SBS3.7/5.0'', ''Sungrow HV'',
     ''Sungrow HV'', ''Kaco HV'', ''Kaco HV'', ''Ingeteam HV'', ''Ingeteam HV'',
     ''SMA SBS 2.5 HV'', ''undefined'', ''SMA SBS 2.5 HV'', ''Fronius HV'',
     ''undefined'', ''SMA STP'']"

definition lvs_inverters :: "string list" where
  "lvs_inverters =
    [''Fronius HV'', ''Goodwe HV'', ''Goodwe HV'', ''Kostal HV'', ''Selectronic LV'',
     ''SMA SBS3.7/5.0'', ''SMA LV'', ''Victron LV'', ''Suntech LV'', ''Sungrow HV'',
     ''Kaco HV'', ''Studer LV'', ''Solar Edge LV'', ''Ingeteam HV'', ''Sungrow LV'',
     ''Schneider LV'', ''SMA SBS2.5 HV'', ''Solar Edge LV'', ''Solar Edge LV'',
     ''Solar Edge LV'', ''unknown'']"

definition grid_type_map :: "nat \<rightharpoonup> string" where
  "grid_type_map = map_of [(0, ''OffGrid''), (1, ''OnGrid''), (2, ''Backup'')]"

text \<open>\<^verbatim>\<open>batt_type_map\<close>: name, cells per module, temperatures per module.\<close>

definition batt_type_map :: "nat \<rightharpoonup> string \<times> nat \<times> nat" where
  "batt_type_map =
     map_of [(0, (''LVS'', 0, 0)), (1, (''HVM'', 16, 8)), (2, (''HVS'', 32, 12))]"

section \<open>Payload decoders\<close>

text \<open>
  A decoder assigns to the object statement by statement. When a statement raises, the
  exception leaves the decoder with the assignments made so far in place. A decoder
  therefore returns the exception, if any, together with the object as it then is.
  \<open>attempt m s k\<close> evaluates an expression \<open>m\<close> that may raise while the object is
  \<open>s\<close>, and continues with \<open>k\<close> on its value.
\<close>

definition attempt ::
  "error + 'a \<Rightarrow> bydhvs \<Rightarrow> ('a \<Rightarrow> error option \<times> bydhvs) \<Rightarrow> error option \<times> bydhvs" where
  "attempt m s k = (case m of Inl e \<Rightarrow> (Some e, s) | Inr x \<Rightarrow> k x)"

definition parse_packet0 :: "byte list \<Rightarrow> bydhvs \<Rightarrow> error option \<times> bydhvs" where
  "parse_packet0 data s0 =
     attempt (decode_ascii (py_slice data 3 22)) s0 (\<lambda>serial.
     let s1 = s0\<lparr>hvs_serial := strip serial\<rparr> in
     attempt (getitem data 5) s1 (\<lambda>hardware_type.
     let s2 = (if hardware_type = 51 then s1\<lparr>hvs_batt_type_from_serial := ''HVS''\<rparr>
               else if hardware_type = 49 \<or> hardware_type = 50
                 then s1\<lparr>hvs_batt_type_from_serial := ''LVS''\<rparr>
               else s1) in
     attempt (getitem data 27) s2 (\<lambda>b27.
     attempt (getitem data 28) s2 (\<lambda>b28.
     let s3 = s2\<lparr>hvs_bmu_a := ''V'' @ str_nat b27 @ ''.'' @ str_nat b28\<rparr> in
     attempt (getitem data 29) s3 (\<lambda>b29.
     attempt (getitem data 30) s3 (\<lambda>b30.
     let s4 = s3\<lparr>hvs_bmu_b := ''V'' @ str_nat b29 @ ''.'' @ str_nat b30\<rparr> in
     attempt (getitem data 33) s4 (\<lambda>b33.
     let s5 = (if b33 = 0 then s4\<lparr>hvs_bmu := hvs_bmu_a s4 @ ''-A''\<rparr>
               else s4\<lparr>hvs_bmu := hvs_bmu_b s4 @ ''-B''\<rparr>) in
     attempt (getitem data 31) s5 (\<lambda>b31.
     attempt (getitem data 32) s5 (\<lambda>b32.
     attempt (getitem data 34) s5 (\<lambda>b34.
     let s6 = s5\<lparr>hvs_bms :=
                map of_char (''V'' @ str_nat b31 @ ''.'' @ str_nat b32 @ ''-'') @ [b34 + 65]\<rparr> in
     attempt (getitem data 36) s6 (\<lambda>b36.
     let s7 = s6\<lparr>hvs_modules := b36 mod 16\<rparr> in
     attempt (getitem data 36) s7 (\<lambda>b36'.
     let s8 = s7\<lparr>hvs_towers := b36' div 16\<rparr> in
     attempt (getitem data 38) s8 (\<lambda>b38.
     let s9 = s8\<lparr>hvs_grid := (case grid_type_map b38 of None \<Rightarrow> ''Unknown'' | Some g \<Rightarrow> g)\<rparr>
     in (None, s9))))))))))))))"

text \<open>
  The two efficiency computations, \<^verbatim>\<open>if charge: eta = 100 * discharge / charge\<close>
  \<^verbatim>\<open>else: eta = 0\<close>, are written as one guarded expression whose value is then
  assigned; the division is the operation that could raise. In \<^verbatim>\<open>_parse_packet1\<close>
  the totals are the floats \<^verbatim>\<open>n / 10\<close>, in \<^verbatim>\<open>_parse_packet5\<close> they are ints.
\<close>

definition parse_packet1 :: "byte list \<Rightarrow> bydhvs \<Rightarrow> error option \<times> bydhvs" where
  "parse_packet1 data s0 =
     (let s1 = s0\<lparr>hvs_soc := buf2int16_si data 3,
                  hvs_max_volt := FRound (FDiv (FNum (buf2int16_si data 5)) (FNum 100)) 2,
                  hvs_min_volt := FRound (FDiv (FNum (buf2int16_si data 7)) (FNum 100)) 2,
                  hvs_soh := buf2int16_si data 9,
                  hvs_current := FRound (FDiv (FNum (buf2int16_si data 11)) (FNum 10)) 1,
                  hvs_batt_volt :=
                    FRound (FDiv (FNum (int (buf2int16_us data 13))) (FNum 100)) 1,
                  hvs_max_temp := buf2int16_si data 15,
                  hvs_min_temp := buf2int16_si data 17,
                  hvs_batt_temp := buf2int16_si data 19,
                  hvs_error := buf2int16_si data 29\<rparr> in
      attempt (getitem data 31) s1 (\<lambda>b31.
      attempt (getitem data 32) s1 (\<lambda>b32.
      let s2 = s1\<lparr>hvs_param_t := str_nat b31 @ ''.'' @ str_nat b32\<rparr>;
          s3 = s2\<lparr>hvs_out_volt :=
                   FRound (FDiv (FNum (int (buf2int16_us data 35))) (FNum 100)) 1\<rparr>;
          s4 = s3\<lparr>hvs_power := FRound (FMul (hvs_current s3) (hvs_out_volt s3)) 2\<rparr>;
          s5 = s4\<lparr>hvs_diff_volt := FRound (FSub (hvs_max_volt s4) (hvs_min_volt s4)) 2\<rparr>;
          s6 = s5\<lparr>hvs_error_string := flag_string errors (hvs_error s5)\<rparr> in
      attempt (buf2int32_us data 37) s6 (\<lambda>charge.
      let s7 = s6\<lparr>hvs_charge_total := Quotient (int charge) 10\<rparr> in
      attempt (buf2int32_us data 41) s7 (\<lambda>discharge.
      let s8 = s7\<lparr>hvs_discharge_total := Quotient (int discharge) 10\<rparr> in
      attempt (if \<not> quotient_is_zero (hvs_charge_total s8)
               then py_truediv (FMul (FNum 100) (FOf (hvs_discharge_total s8)))
                      (hvs_charge_total s8)
               else Inr (FNum 0)) s8 (\<lambda>eta.
      let s9 = s8\<lparr>hvs_eta := eta\<rparr>
      in (None, s9)))))))"

definition parse_packet2 :: "byte list \<Rightarrow> bydhvs \<Rightarrow> error option \<times> bydhvs" where
  "parse_packet2 data s0 =
     attempt (getitem data 5) s0 (\<lambda>batt_type.
     let s1 = s0\<lparr>hvs_batt_type := PInt batt_type\<rparr> in
     attempt (getitem data 3) s1 (\<lambda>inv_type.
     let s2 = s1\<lparr>hvs_inv_type := PInt inv_type\<rparr>;
         batt_info = (case batt_type_map batt_type of None \<Rightarrow> ([], 0, 0) | Some i \<Rightarrow> i);
         s3 = s2\<lparr>hvs_batt_type_string := fst batt_info,
                  hvs_module_cell_count := fst (snd batt_info),
                  hvs_module_cell_temp_count := snd (snd batt_info)\<rparr>;
         s4 = s3\<lparr>hvs_num_cells := hvs_modules s3 * hvs_module_cell_count s3\<rparr>;
         s5 = s4\<lparr>hvs_num_temps := hvs_modules s4 * hvs_module_cell_temp_count s4\<rparr>;
         s6 = (if inv_type < length inverters
               then s5\<lparr>hvs_inv_type_string := inverters ! inv_type\<rparr>
               else s5\<lparr>hvs_inv_type_string := ''undefined''\<rparr>);
         s7 = (if hvs_batt_type_from_serial s6 = ''LVS'' then
                 let t1 = s6\<lparr>hvs_batt_type := PStr ''LVS'',
                              hvs_module_cell_count := 8,
                              hvs_module_cell_temp_count := 4\<rparr>;
                     t2 = t1\<lparr>hvs_num_cells := hvs_modules t1 * hvs_module_cell_count t1\<rparr>;
                     t3 = t2\<lparr>hvs_num_temps :=
                              hvs_modules t2 * hvs_module_cell_temp_count t2\<rparr>
                 in if inv_type < length lvs_inverters
                    then t3\<lparr>hvs_inv_type_string := lvs_inverters ! inv_type\<rparr>
                    else t3\<lparr>hvs_inv_type_string := ''undefined''\<rparr>
               else s6);
         s8 = s7\<lparr>hvs_num_cells := min (hvs_num_cells s7) MAX_CELLS\<rparr>;
         s9 = s8\<lparr>hvs_num_temps := min (hvs_num_temps s8) MAX_TEMPS\<rparr>
     in (None, s9)))"

text \<open>
  \<^verbatim>\<open>tower = self.tower_attributes[tower_number]\<close> raises IndexError out of range;
  the assignments to \<^verbatim>\<open>tower[...]\<close> that follow change that list element in place.
\<close>

definition get_tower :: "bydhvs \<Rightarrow> nat \<Rightarrow> error + tower" where
  "get_tower s tower_number =
     (if tower_number < length (tower_attributes s)
      then Inr (tower_attributes s ! tower_number) else Inl IndexError)"

definition upd_tower :: "nat \<Rightarrow> (tower \<Rightarrow> tower) \<Rightarrow> bydhvs \<Rightarrow> bydhvs" where
  "upd_tower tower_number f s =
     s\<lparr>tower_attributes :=
         (tower_attributes s)[tower_number := f (tower_attributes s ! tower_number)]\<rparr>"

text \<open>\<^verbatim>\<open>[self._buf2int16_si(data, base + i * 2) for i in range(count)]\<close>; the range
  of a negative count is empty.\<close>

definition cell_block :: "byte list \<Rightarrow> nat \<Rightarrow> int \<Rightarrow> int list" where
  "cell_block data base count =
     map (\<lambda>i. buf2int16_si data (base + i * 2)) [0..<nat count]"

definition parse_packet5 :: "byte list \<Rightarrow> nat \<Rightarrow> bydhvs \<Rightarrow> error option \<times> bydhvs" where
  "parse_packet5 data tower_number s0 =
     attempt (get_tower s0 tower_number) s0 (\<lambda>_.
     let s1 = upd_tower tower_number (\<lambda>t. t\<lparr>
                t_no := Some tower_number,
                t_max_cell_voltage_mv := Some (buf2int16_si data 5),
                t_min_cell_voltage_mv := Some (buf2int16_si data 7)\<rparr>) s0 in
     attempt (getitem data 9) s1 (\<lambda>b9.
     let s2 = upd_tower tower_number (\<lambda>t. t\<lparr>t_max_cell_voltage_cell := Some b9\<rparr>) s1 in
     attempt (getitem data 10) s2 (\<lambda>b10.
     let s3 = upd_tower tower_number (\<lambda>t. t\<lparr>t_min_cell_voltage_cell := Some b10\<rparr>) s2 in
     attempt (getitem data 12) s3 (\<lambda>b12.
     let s4 = upd_tower tower_number (\<lambda>t. t\<lparr>t_max_cell_temp := Some b12\<rparr>) s3 in
     attempt (getitem data 14) s4 (\<lambda>b14.
     let s5 = upd_tower tower_number (\<lambda>t. t\<lparr>t_min_cell_temp := Some b14\<rparr>) s4 in
     attempt (getitem data 15) s5 (\<lambda>b15.
     let s6 = upd_tower tower_number (\<lambda>t. t\<lparr>t_max_cell_temp_cell := Some b15\<rparr>) s5 in
     attempt (getitem data 16) s6 (\<lambda>b16.
     let s7 = upd_tower tower_number (\<lambda>t. t\<lparr>t_min_cell_temp_cell := Some b16\<rparr>) s6;
         s8 = upd_tower tower_number
                (\<lambda>t. t\<lparr>t_balancing_status := Some (hex (py_slice data 17 33))\<rparr>) s7 in
     attempt (int_of_hex (hex (py_slice data 17 33))) s8 (\<lambda>balancing.
     let s9 = upd_tower tower_number
                (\<lambda>t. t\<lparr>t_balancing_count := Some (popcount balancing)\<rparr>) s8 in
     attempt (buf2int32_us data 33) s9 (\<lambda>charge.
     let s10 = upd_tower tower_number (\<lambda>t. t\<lparr>t_charge_total := Some charge\<rparr>) s9 in
     attempt (buf2int32_us data 37) s10 (\<lambda>discharge.
     let s11 = upd_tower tower_number (\<lambda>t. t\<lparr>t_discharge_total := Some discharge\<rparr>) s10 in
     attempt (if charge \<noteq> 0
              then int_truediv (100 * int discharge) (int charge)
              else Inr (FNum 0)) s11 (\<lambda>eta.
     let s12 = upd_tower tower_number (\<lambda>t. t\<lparr>t_eta := Some eta\<rparr>) s11;
         s13 = upd_tower tower_number (\<lambda>t. t\<lparr>
                 t_battery_volt :=
                   Some (FRound (FDiv (FNum (buf2int16_si data 45)) (FNum 10)) 1),
                 t_out_volt :=
                   Some (FRound (FDiv (FNum (buf2int16_si data 51)) (FNum 10)) 1),
                 t_hvs_soc_diagnosis :=
                   Some (FRound (FDiv (FNum (buf2int16_si data 53)) (FNum 10)) 1),
                 t_soh := Some (buf2int16_si data 55)\<rparr>) s12 in
     attempt (getitem data 59) s13 (\<lambda>b59.
     attempt (getitem data 60) s13 (\<lambda>b60.
     let tower_state = str_nat b59 @ str_nat b60;
         s14 = upd_tower tower_number (\<lambda>t. t\<lparr>
                 t_state := Some tower_state,
                 t_state_string :=
                   Some (flag_string stat_tower (int (int_of_str tower_state)))\<rparr>) s13;
         s15 = upd_tower tower_number
                 (\<lambda>t. t\<lparr>t_cell_voltages := cell_block data 101 16\<rparr>) s14
     in (None, s15))))))))))))))"

definition parse_packet6 :: "byte list \<Rightarrow> nat \<Rightarrow> bydhvs \<Rightarrow> error option \<times> bydhvs" where
  "parse_packet6 data tower_number s0 =
     attempt (get_tower s0 tower_number) s0 (\<lambda>_.
     let max_cells = min (int (hvs_num_cells s0) - 16) 64;
         s1 = upd_tower tower_number (\<lambda>t. t\<lparr>t_cell_voltages :=
                t_cell_voltages t @ cell_block data 5 max_cells\<rparr>) s0
     in (None, s1))"

definition parse_packet7 :: "byte list \<Rightarrow> nat \<Rightarrow> bydhvs \<Rightarrow> error option \<times> bydhvs" where
  "parse_packet7 data tower_number s0 =
     attempt (get_tower s0 tower_number) s0 (\<lambda>_.
     let max_cells = min (int (hvs_num_cells s0) - 80) 48;
         s1 = upd_tower tower_number (\<lambda>t. t\<lparr>t_cell_voltages :=
                t_cell_voltages t @ cell_block data 5 max_cells\<rparr>) s0;
         max_temps = min (int (hvs_num_temps s1)) 30;
         s2 = upd_tower tower_number (\<lambda>t. t\<lparr>t_cell_temperatures :=
                map unat (py_slice data 103 (103 + max_temps))\<rparr>) s1
     in (None, s2))"

definition parse_packet8 :: "byte list \<Rightarrow> nat \<Rightarrow> bydhvs \<Rightarrow> error option \<times> bydhvs" where
  "parse_packet8 data tower_number s0 =
     attempt (get_tower s0 tower_number) s0 (\<lambda>_.
     let max_temps = min (int (hvs_num_temps s0) - 30) 34;
         s1 = upd_tower tower_number (\<lambda>t. t\<lparr>t_cell_temperatures :=
                t_cell_temperatures t @ map unat (py_slice data 5 (5 + max_temps))\<rparr>) s0
     in (None, s1))"

definition parse_packet12 :: "byte list \<Rightarrow> nat \<Rightarrow> bydhvs \<Rightarrow> error option \<times> bydhvs" where
  "parse_packet12 data tower_number s0 =
     attempt (get_tower s0 tower_number) s0 (\<lambda>_.
     let balancing_data = from_bytes_us (py_slice data 17 33);
         s1 = upd_tower tower_number
                (\<lambda>t. t\<lparr>t_balancing_count := Some (popcount balancing_data)\<rparr>) s0;
         s2 = upd_tower tower_number (\<lambda>t. t\<lparr>t_cell_voltages :=
                t_cell_voltages t @ cell_block data 101 16\<rparr>) s1
     in (None, s2))"

definition parse_packet13 :: "byte list \<Rightarrow> nat \<Rightarrow> bydhvs \<Rightarrow> error option \<times> bydhvs" where
  "parse_packet13 data tower_number s0 =
     attempt (get_tower s0 tower_number) s0 (\<lambda>_.
     let start_cell = 144;
         max_cells = min (int (hvs_num_cells s0) - start_cell) 16;
         s1 = upd_tower tower_number (\<lambda>t. t\<lparr>t_cell_voltages :=
                t_cell_voltages t @ cell_block data 5 max_cells\<rparr>) s0
     in (None, s1))"

section \<open>Transport\<close>

text \<open>
  The socket is outside the driver. What it does is given by the environment: the
  outcome of \<^verbatim>\<open>asyncio.open_connection\<close>, and for the n-th write and the n-th read
  still to come what \<^verbatim>\<open>drain\<close> and \<^verbatim>\<open>read\<close> do: succeed, or raise one of the
  exceptions the driver catches. \<open>is_open\<close> says whether the connection is open,
  \<open>written\<close> lists the frames handed to \<^verbatim>\<open>writer.write\<close>.
  \<^verbatim>\<open>TimeoutError\<close> is the builtin one, which \<^verbatim>\<open>asyncio.wait_for\<close> raises from
  Python 3.11 on. \<open>close_result\<close> is what \<^verbatim>\<open>writer.wait_closed()\<close> does:
  asyncio re-raises there the exception with which the connection was lost, as after a
  reset or a broken pipe, and returns normally after a timeout or an orderly end.
\<close>

datatype connect_result = Connected | ConnectTimeout | ConnectOSError

datatype send_result = Sent | SendError

datatype recv_result = Data "byte list" | RecvTimeout | RecvIncomplete | RecvError

datatype close_result = Closed | CloseError

record transport =
  connect_result :: connect_result
  sends :: "nat \<Rightarrow> send_result"
  recvs :: "nat \<Rightarrow> recv_result"
  close_result :: close_result
  is_open :: bool
  written :: "byte list list"

subsection \<open>Request frames\<close>

definition read_serial_number :: "byte list" where
  "read_serial_number =
     [0x01, 0x03, 0x00, 0x00, 0x00, 0x66, 0xc5, 0xe0]"

definition read_status_information :: "byte list" where
  "read_status_information =
     [0x01, 0x03, 0x05, 0x00, 0x00, 0x19, 0x84, 0xcc]"

definition read_battery_info :: "byte list" where
  "read_battery_info =
     [0x01, 0x03, 0x00, 0x10, 0x00, 0x03, 0x04, 0x0e]"

definition start_measure_box_1 :: "byte list" where
  "start_measure_box_1 =
     [0x01, 0x10, 0x05, 0x50, 0x00, 0x02, 0x04, 0x00, 0x01, 0x81, 0x00, 0xf8, 0x53]"

definition read_measurement_status :: "byte list" where
  "read_measurement_status =
     [0x01, 0x03, 0x05, 0x51, 0x00, 0x01, 0xd5, 0x17]"

definition read_cell_volt_temp :: "byte list" where
  "read_cell_volt_temp =
     [0x01, 0x03, 0x05, 0x58, 0x00, 0x41, 0x04, 0xe5]"

definition switch_pass :: "byte list" where
  "switch_pass =
     [0x01, 0x10, 0x01, 0x00, 0x00, 0x03, 0x06, 0x44, 0x45, 0x42, 0x55, 0x47, 0x00, 0x17, 0x6f]"

definition start_measure_box_2 :: "byte list" where
  "start_measure_box_2 =
     [0x01, 0x10, 0x05, 0x50, 0x00, 0x02, 0x04, 0x00, 0x02, 0x81, 0x00, 0x08, 0x53]"

definition start_measure_box_3 :: "byte list" where
  "start_measure_box_3 =
     [0x01, 0x10, 0x05, 0x50, 0x00, 0x02, 0x04, 0x00, 0x03, 0x81, 0x00, 0x59, 0x93]"

subsection \<open>Connection primitives\<close>

text \<open>\<^verbatim>\<open>_connect\<close> re-raises a failure as one of the driver's own exceptions.\<close>

definition connect :: "bydhvs \<Rightarrow> transport \<Rightarrow> error option \<times> bydhvs \<times> transport" where
  "connect s tr =
     (case connect_result tr of
        Connected \<Rightarrow>
          (None, s\<lparr>reader := True, writer := True, state := 2\<rparr>, tr\<lparr>is_open := True\<rparr>)
      | ConnectTimeout \<Rightarrow> (Some BYDHVSTimeoutError, s, tr)
      | ConnectOSError \<Rightarrow> (Some BYDHVSConnectionError, s, tr))"

text \<open>\<^verbatim>\<open>_send_request\<close>: a caught fault sets the state to 0 and returns normally.\<close>

definition send_request :: "byte list \<Rightarrow> bydhvs \<Rightarrow> transport \<Rightarrow> bydhvs \<times> transport" where
  "send_request request s tr =
     (if writer s then
        let tr' = tr\<lparr>sends := (\<lambda>n. sends tr (Suc n)), written := written tr @ [request]\<rparr>
        in case sends tr 0 of
             Sent \<Rightarrow> (s, tr')
           | SendError \<Rightarrow> (s\<lparr>state := 0\<rparr>, tr')
      else (s, tr))"

text \<open>\<^verbatim>\<open>_receive_response\<close>: the bytes read, or None after a caught fault (with the
  state set to 0) or without a reader.\<close>

definition receive_response ::
  "bydhvs \<Rightarrow> transport \<Rightarrow> byte list option \<times> bydhvs \<times> transport" where
  "receive_response s tr =
     (if reader s then
        let tr' = tr\<lparr>recvs := (\<lambda>n. recvs tr (Suc n))\<rparr>
        in case recvs tr 0 of
             Data data \<Rightarrow> (Some data, s, tr')
           | RecvTimeout \<Rightarrow> (None, s\<lparr>state := 0\<rparr>, tr')
           | RecvIncomplete \<Rightarrow> (None, s\<lparr>state := 0\<rparr>, tr')
           | RecvError \<Rightarrow> (None, s\<lparr>state := 0\<rparr>, tr')
      else (None, s, tr))"

text \<open>
  \<^verbatim>\<open>_close\<close> does not guard \<^verbatim>\<open>await self._writer.wait_closed()\<close>: an exception
  raised there (an OSError such as ConnectionResetError or BrokenPipeError) leaves
  \<^verbatim>\<open>_close\<close> before \<^verbatim>\<open>_reader\<close> and \<^verbatim>\<open>_writer\<close> are reset.
\<close>

definition close :: "bydhvs \<Rightarrow> transport \<Rightarrow> error option \<times> bydhvs \<times> transport" where
  "close s tr =
     (if writer s then
        case close_result tr of
          Closed \<Rightarrow> (None, s\<lparr>reader := False, writer := False\<rparr>, tr\<lparr>is_open := False\<rparr>)
        | CloseError \<Rightarrow> (Some OSError, s, tr\<lparr>is_open := False\<rparr>)
      else (None, s, tr))"

section \<open>State machine\<close>

text \<open>\<^verbatim>\<open>data and self._check_packet(data)\<close>: None and the empty string are false.\<close>

definition accepted :: "byte list option \<Rightarrow> bool" where
  "accepted data = (case data of None \<Rightarrow> False | Some d \<Rightarrow> d \<noteq> [] \<and> check_packet d)"

text \<open>
  Every state handler has the same shape: send a request (states 5 and 12 send none
  for a tower index above 2), receive, and either run the branch for a valid reply or
  set the state to 0. \<open>on_valid\<close> is that branch: the decoder call, if the state has
  one, and the assignments after it. An exception raised there escapes the handler.
\<close>

definition request_reply ::
  "byte list option \<Rightarrow> (byte list \<Rightarrow> bydhvs \<Rightarrow> error option \<times> bydhvs) \<Rightarrow>
   bydhvs \<Rightarrow> transport \<Rightarrow> error option \<times> bydhvs \<times> transport" where
  "request_reply request on_valid s tr =
     (let (s1, tr1) = (case request of None \<Rightarrow> (s, tr) | Some r \<Rightarrow> send_request r s tr);
          (data, s2, tr2) = receive_response s1 tr1
      in case data of
           None \<Rightarrow> (None, s2\<lparr>state := 0\<rparr>, tr2)
         | Some d \<Rightarrow>
             if accepted (Some d) then (case on_valid d s2 of (e, s3) \<Rightarrow> (e, s3, tr2))
             else (None, s2\<lparr>state := 0\<rparr>, tr2))"

text \<open>The statements after a decoder call run only when the decoder returned.\<close>

definition and_then ::
  "error option \<times> bydhvs \<Rightarrow> (bydhvs \<Rightarrow> bydhvs) \<Rightarrow> error option \<times> bydhvs" where
  "and_then r f = (case r of (None, s) \<Rightarrow> (None, f s) | (Some e, s) \<Rightarrow> (Some e, s))"

text \<open>The request of states 5 and 12, chosen by the tower index.\<close>

definition start_measure_request :: "bydhvs \<Rightarrow> byte list option" where
  "start_measure_request s =
     (if current_tower s = 0 then Some start_measure_box_1
      else if current_tower s = 1 then Some start_measure_box_2
      else if current_tower s = 2 then Some start_measure_box_3
      else None)"

text \<open>\<^verbatim>\<open>if self.current_tower + 1 < self.hvs_towers\<close>: next tower, or the end.\<close>

definition next_tower :: "bydhvs \<Rightarrow> bydhvs" where
  "next_tower s =
     (if current_tower s + 1 < hvs_towers s
      then s\<lparr>current_tower := current_tower s + 1, state := 5\<rparr>
      else s\<lparr>state := 0\<rparr>)"

definition state2_send_request0 ::
  "bydhvs \<Rightarrow> transport \<Rightarrow> error option \<times> bydhvs \<times> transport" where
  "state2_send_request0 =
     request_reply (Some read_serial_number) (\<lambda>data s.
       and_then (parse_packet0 data s) (\<lambda>s.
         s\<lparr>tower_attributes :=
             replicate (if hvs_towers s \<noteq> 0 then hvs_towers s else 1) new_tower,
           state := 3\<rparr>))"

definition state3_send_request1 ::
  "bydhvs \<Rightarrow> transport \<Rightarrow> error option \<times> bydhvs \<times> transport" where
  "state3_send_request1 =
     request_reply (Some read_status_information) (\<lambda>data s.
       and_then (parse_packet1 data s) (\<lambda>s. s\<lparr>state := 4\<rparr>))"

definition state4_send_request2 ::
  "bydhvs \<Rightarrow> transport \<Rightarrow> error option \<times> bydhvs \<times> transport" where
  "state4_send_request2 =
     request_reply (Some read_battery_info) (\<lambda>data s.
       and_then (parse_packet2 data s) (\<lambda>s.
         if 0 < hvs_num_cells s \<and> 0 < hvs_num_temps s then s\<lparr>state := 5\<rparr>
         else s\<lparr>state := 0\<rparr>))"

definition state5_start_measurement ::
  "bydhvs \<Rightarrow> transport \<Rightarrow> error option \<times> bydhvs \<times> transport" where
  "state5_start_measurement s =
     request_reply (start_measure_request s) (\<lambda>data s. (None, s\<lparr>state := 6\<rparr>)) s"

definition state6_send_request4 ::
  "bydhvs \<Rightarrow> transport \<Rightarrow> error option \<times> bydhvs \<times> transport" where
  "state6_send_request4 =
     request_reply (Some read_measurement_status) (\<lambda>data s. (None, s\<lparr>state := 7\<rparr>))"

definition state7_send_request5 ::
  "bydhvs \<Rightarrow> transport \<Rightarrow> error option \<times> bydhvs \<times> transport" where
  "state7_send_request5 =
     request_reply (Some read_cell_volt_temp) (\<lambda>data s.
       and_then (parse_packet5 data (current_tower s) s) (\<lambda>s. s\<lparr>state := 8\<rparr>))"

definition state8_send_request6 ::
  "bydhvs \<Rightarrow> transport \<Rightarrow> error option \<times> bydhvs \<times> transport" where
  "state8_send_request6 =
     request_reply (Some read_cell_volt_temp) (\<lambda>data s.
       and_then (parse_packet6 data (current_tower s) s) (\<lambda>s. s\<lparr>state := 9\<rparr>))"

definition state9_send_request7 ::
  "bydhvs \<Rightarrow> transport \<Rightarrow> error option \<times> bydhvs \<times> transport" where
  "state9_send_request7 =
     request_reply (Some read_cell_volt_temp) (\<lambda>data s.
       and_then (parse_packet7 data (current_tower s) s) (\<lambda>s. s\<lparr>state := 10\<rparr>))"

definition state10_send_request8 ::
  "bydhvs \<Rightarrow> transport \<Rightarrow> error option \<times> bydhvs \<times> transport" where
  "state10_send_request8 =
     request_reply (Some read_cell_volt_temp) (\<lambda>data s.
       and_then (parse_packet8 data (current_tower s) s) (\<lambda>s.
         if 128 < hvs_num_cells s then s\<lparr>state := 11\<rparr> else next_tower s))"

definition state11_send_request9 ::
  "bydhvs \<Rightarrow> transport \<Rightarrow> error option \<times> bydhvs \<times> transport" where
  "state11_send_request9 =
     request_reply (Some switch_pass) (\<lambda>data s. (None, s\<lparr>state := 12\<rparr>))"

definition state12_send_request10 ::
  "bydhvs \<Rightarrow> transport \<Rightarrow> error option \<times> bydhvs \<times> transport" where
  "state12_send_request10 s =
     request_reply (start_measure_request s) (\<lambda>data s. (None, s\<lparr>state := 13\<rparr>)) s"

definition state13_send_request11 ::
  "bydhvs \<Rightarrow> transport \<Rightarrow> error option \<times> bydhvs \<times> transport" where
  "state13_send_request11 =
     request_reply (Some read_measurement_status) (\<lambda>data s. (None, s\<lparr>state := 14\<rparr>))"

definition state14_send_request12 ::
  "bydhvs \<Rightarrow> transport \<Rightarrow> error option \<times> bydhvs \<times> transport" where
  "state14_send_request12 =
     request_reply (Some read_cell_volt_temp) (\<lambda>data s.
       and_then (parse_packet12 data (current_tower s) s) (\<lambda>s. s\<lparr>state := 15\<rparr>))"

definition state15_send_request13 ::
  "bydhvs \<Rightarrow> transport \<Rightarrow> error option \<times> bydhvs \<times> transport" where
  "state15_send_request13 =
     request_reply (Some read_cell_volt_temp) (\<lambda>data s.
       and_then (parse_packet13 data (current_tower s) s) next_tower)"

text \<open>
  The dispatch table \<^verbatim>\<open>state_actions\<close> of \<^verbatim>\<open>poll\<close>, with the branch for a state
  that has no entry.
\<close>

definition state_action ::
  "bydhvs \<Rightarrow> transport \<Rightarrow> error option \<times> bydhvs \<times> transport" where
  "state_action s tr =
     (if state s = 2 then state2_send_request0 s tr
      else if state s = 3 then state3_send_request1 s tr
      else if state s = 4 then state4_send_request2 s tr
      else if state s = 5 then state5_start_measurement s tr
      else if state s = 6 then state6_send_request4 s tr
      else if state s = 7 then state7_send_request5 s tr
      else if state s = 8 then state8_send_request6 s tr
      else if state s = 9 then state9_send_request7 s tr
      else if state s = 10 then state10_send_request8 s tr
      else if state s = 11 then state11_send_request9 s tr
      else if state s = 12 then state12_send_request10 s tr
      else if state s = 13 then state13_send_request11 s tr
      else if state s = 14 then state14_send_request12 s tr
      else if state s = 15 then state15_send_request13 s tr
      else (None, s\<lparr>state := 0\<rparr>, tr))"

text \<open>One turn of the \<^verbatim>\<open>while\<close> loop: log the state, run its handler.\<close>

definition loop_body ::
  "bydhvs \<Rightarrow> transport \<Rightarrow> error option \<times> bydhvs \<times> transport" where
  "loop_body s tr = state_action (s\<lparr>state_action_list := state_action_list s @ [state s]\<rparr>) tr"

text \<open>
  A bound on the turns of the loop left: the states of a tower count down to 15, and a
  new tower starts only while \<open>current_tower + 1 < hvs_towers\<close>; state 2 is entered
  once and leaves at most 15 towers.
\<close>

definition poll_measure :: "bydhvs \<Rightarrow> nat" where
  "poll_measure s =
     (if state s = 0 then 0
      else if state s = 2 then 200
      else if 3 \<le> state s \<and> state s \<le> 15
        then 11 * (hvs_towers s - (current_tower s + 1)) + (17 - state s)
      else 1)"

section \<open>Termination of the polling loop\<close>

text \<open>
  Invariance rules for the decoders: a projection of the object that every assignment
  of a decoder leaves alone is left alone by the decoder, whether it returns or raises.
\<close>

definition keeps :: "(bydhvs \<Rightarrow> 'a) \<Rightarrow> 'a \<Rightarrow> bydhvs \<Rightarrow> bool" where
  "keeps p c s = (p s = c)"

definition tw :: "bydhvs \<Rightarrow> nat \<times> nat" where
  "tw s = (current_tower s, hvs_towers s)"

lemma keeps_attempt:
  "keeps p c s \<Longrightarrow> (\<And>x. keeps p c (snd (k x))) \<Longrightarrow> keeps p c (snd (attempt m s k))"
  by (simp add: attempt_def split: sum.splits)

lemma keeps_snd_let_state:
  "keeps p c a \<Longrightarrow> (\<And>x. keeps p c x \<Longrightarrow> keeps p c (snd (f x))) \<Longrightarrow>
   keeps p c (snd (Let a f))"
  by simp

lemma keeps_snd_let: "(\<And>x. keeps p c (snd (f x))) \<Longrightarrow> keeps p c (snd (Let a f))"
  by simp

lemma keeps_let_state:
  "keeps p c a \<Longrightarrow> (\<And>x. keeps p c x \<Longrightarrow> keeps p c (f x)) \<Longrightarrow> keeps p c (Let a f)"
  by simp

lemma keeps_let: "(\<And>x. keeps p c (f x)) \<Longrightarrow> keeps p c (Let a f)"
  by simp

lemma keeps_result: "keeps p c s \<Longrightarrow> keeps p c (snd (e, s))"
  by simp

lemma keeps_if: "keeps p c a \<Longrightarrow> keeps p c b \<Longrightarrow> keeps p c (if q then a else b)"
  by simp

lemmas keeps_intros =
  keeps_attempt keeps_snd_let_state keeps_snd_let keeps_let_state keeps_let
  keeps_result keeps_if

lemma keepsI: "(\<And>c. keeps p c s \<Longrightarrow> keeps p c s') \<Longrightarrow> p s' = p s"
  by (simp add: keeps_def)

lemma parse_packet1_tw: "tw (snd (parse_packet1 data s)) = tw s"
  apply (rule keepsI)
  unfolding parse_packet1_def
  apply (intro keeps_intros)
  apply (simp_all add: keeps_def tw_def)
  done

lemma parse_packet2_tw: "tw (snd (parse_packet2 data s)) = tw s"
  apply (rule keepsI)
  unfolding parse_packet2_def
  apply (intro keeps_intros)
  apply (simp_all add: keeps_def tw_def)
  done

lemma parse_packet5_tw: "tw (snd (parse_packet5 data n s)) = tw s"
  apply (rule keepsI)
  unfolding parse_packet5_def
  apply (intro keeps_intros)
  apply (simp_all add: keeps_def tw_def upd_tower_def)
  done

lemma parse_packet6_tw: "tw (snd (parse_packet6 data n s)) = tw s"
  apply (rule keepsI)
  unfolding parse_packet6_def
  apply (intro keeps_intros)
  apply (simp_all add: keeps_def tw_def upd_tower_def)
  done

lemma parse_packet0_ct: "current_tower (snd (parse_packet0 data s)) = current_tower s"
  apply (rule keepsI)
  unfolding parse_packet0_def
  apply (intro keeps_intros)
  apply (simp_all add: keeps_def)
  done

lemma getitem_less: "getitem data i = Inr x \<Longrightarrow> x < 256"
  using unsigned_less [of "data ! i", where 'a = nat]
  by (auto simp add: getitem_def split: if_splits)

text \<open>What holds of the object when a decoder returns normally.\<close>

definition on_success :: "(bydhvs \<Rightarrow> bool) \<Rightarrow> error option \<times> bydhvs \<Rightarrow> bool" where
  "on_success R r = (case r of (None, s) \<Rightarrow> R s | (Some e, s) \<Rightarrow> True)"

lemma on_success_attempt:
  "(\<And>x. m = Inr x \<Longrightarrow> on_success R (k x)) \<Longrightarrow> on_success R (attempt m s k)"
  by (simp add: attempt_def on_success_def split: sum.splits)

lemma on_success_let: "(\<And>x. x = a \<Longrightarrow> on_success R (f x)) \<Longrightarrow> on_success R (Let a f)"
  by simp

lemma parse_packet0_towers: "on_success (\<lambda>s'. hvs_towers s' < 16) (parse_packet0 data s)"
  unfolding parse_packet0_def
  apply (intro on_success_attempt on_success_let)
  apply (drule getitem_less)+
  apply (simp add: on_success_def)
  done

lemma parse_packet7_tw: "tw (snd (parse_packet7 data n s)) = tw s"
  apply (rule keepsI)
  unfolding parse_packet7_def
  apply (intro keeps_intros)
  apply (simp_all add: keeps_def tw_def upd_tower_def)
  done

lemma parse_packet8_tw: "tw (snd (parse_packet8 data n s)) = tw s"
  apply (rule keepsI)
  unfolding parse_packet8_def
  apply (intro keeps_intros)
  apply (simp_all add: keeps_def tw_def upd_tower_def)
  done

lemma parse_packet12_tw: "tw (snd (parse_packet12 data n s)) = tw s"
  apply (rule keepsI)
  unfolding parse_packet12_def
  apply (intro keeps_intros)
  apply (simp_all add: keeps_def tw_def upd_tower_def)
  done

lemma parse_packet13_tw: "tw (snd (parse_packet13 data n s)) = tw s"
  apply (rule keepsI)
  unfolding parse_packet13_def
  apply (intro keeps_intros)
  apply (simp_all add: keeps_def tw_def upd_tower_def)
  done

subsection \<open>Every handler that returns lowers the bound\<close>

lemma send_request_cases:
  "send_request r s tr = (s1, tr1) \<Longrightarrow> s1\<lparr>state := 0\<rparr> = s\<lparr>state := 0\<rparr>"
  by (auto simp add: send_request_def Let_def split: if_splits send_result.splits)

lemma receive_response_cases:
  "receive_response s tr = (data, s2, tr2) \<Longrightarrow> s2\<lparr>state := 0\<rparr> = s\<lparr>state := 0\<rparr>"
  by (auto simp add: receive_response_def Let_def split: if_splits recv_result.splits)

lemma request_reply_None:
  assumes "request_reply req f s tr = (None, s', tr')"
  shows "state s' = 0 \<or> (\<exists>d s2. s2\<lparr>state := 0\<rparr> = s\<lparr>state := 0\<rparr> \<and> f d s2 = (None, s'))"
proof -
  obtain s1 tr1 where snd: "(case req of None \<Rightarrow> (s, tr) | Some r \<Rightarrow> send_request r s tr) = (s1, tr1)"
    by (cases "case req of None \<Rightarrow> (s, tr) | Some r \<Rightarrow> send_request r s tr")
  obtain data s2 tr2 where rcv: "receive_response s1 tr1 = (data, s2, tr2)"
    by (cases "receive_response s1 tr1")
  have s1: "s1\<lparr>state := 0\<rparr> = s\<lparr>state := 0\<rparr>"
    using snd send_request_cases by (cases req) auto
  have s2: "s2\<lparr>state := 0\<rparr> = s\<lparr>state := 0\<rparr>"
    using receive_response_cases [OF rcv] s1 by simp
  show ?thesis
  proof (cases data)
    case None
    then show ?thesis
      using assms snd rcv by (auto simp add: request_reply_def)
  next
    case (Some d)
    show ?thesis
    proof (cases "accepted (Some d)")
      case True
      then have "f d s2 = (None, s')"
        using assms snd rcv Some by (simp add: request_reply_def split: prod.splits)
      then show ?thesis using s2 by blast
    next
      case False
      then show ?thesis
        using assms snd rcv Some by (auto simp add: request_reply_def)
    qed
  qed
qed

lemma tw_modulo_state: "s2\<lparr>state := 0\<rparr> = s\<lparr>state := 0\<rparr> \<Longrightarrow> tw s2 = tw s"
  by (drule arg_cong [where f = tw]) (simp add: tw_def)

lemma and_then_None:
  "and_then r g = (None, s') \<Longrightarrow> \<exists>s1. r = (None, s1) \<and> s' = g s1"
  by (auto simp add: and_then_def split: prod.splits option.splits)

lemma tw_state_upd [simp]: "tw (s\<lparr>state := v\<rparr>) = tw s"
  by (simp add: tw_def)

lemma tw_log_upd [simp]: "tw (s\<lparr>state_action_list := v\<rparr>) = tw s"
  by (simp add: tw_def)

lemma decode_step_decreases:
  assumes run: "request_reply req (\<lambda>d s. and_then (P d s) g) s tr = (None, s', tr')"
      and frame: "\<And>d s. tw (snd (P d s)) = tw s"
      and pos: "0 < poll_measure s"
      and g: "\<And>s1. tw s1 = tw s \<Longrightarrow> poll_measure (g s1) < poll_measure s"
  shows "poll_measure s' < poll_measure s"
  using request_reply_None [OF run]
proof (elim disjE exE conjE)
  assume "state s' = 0"
  then show ?thesis using pos by (simp add: poll_measure_def)
next
  fix d s2
  assume s2: "s2\<lparr>state := 0\<rparr> = s\<lparr>state := 0\<rparr>"
     and res: "and_then (P d s2) g = (None, s')"
  from and_then_None [OF res] obtain s1 where s1: "P d s2 = (None, s1)" "s' = g s1"
    by (elim exE conjE)
  have "tw s1 = tw s2" using frame [of d s2] s1 by simp
  also have "\<dots> = tw s" using s2 by (rule tw_modulo_state)
  finally show ?thesis using g [of s1] s1(2) by simp
qed

lemma plain_step_decreases:
  assumes run: "request_reply req (\<lambda>d s. (None, g s)) s tr = (None, s', tr')"
      and pos: "0 < poll_measure s"
      and g: "\<And>s1. tw s1 = tw s \<Longrightarrow> poll_measure (g s1) < poll_measure s"
  shows "poll_measure s' < poll_measure s"
  using request_reply_None [OF run]
proof (elim disjE exE conjE)
  assume "state s' = 0"
  then show ?thesis using pos by (simp add: poll_measure_def)
next
  fix d :: "byte list" and s2
  assume s2: "s2\<lparr>state := 0\<rparr> = s\<lparr>state := 0\<rparr>" and res: "(None, g s2) = (None, s')"
  have "tw s2 = tw s" using s2 by (rule tw_modulo_state)
  then show ?thesis using g [of s2] res by simp
qed

lemma state2_decreases:
  assumes "state s = 2" and run: "state2_send_request0 s tr = (None, s', tr')"
  shows "poll_measure s' < poll_measure s"
  using request_reply_None [OF run [unfolded state2_send_request0_def]]
proof (elim disjE exE conjE)
  assume "state s' = 0"
  then show ?thesis using assms(1) by (simp add: poll_measure_def)
next
  fix d s2
  assume res: "and_then (parse_packet0 d s2) (\<lambda>s.
           s\<lparr>tower_attributes :=
               replicate (if hvs_towers s \<noteq> 0 then hvs_towers s else 1) new_tower,
             state := 3\<rparr>) = (None, s')"
  from and_then_None [OF res] obtain s1 where s1: "parse_packet0 d s2 = (None, s1)"
    and s': "s' = s1\<lparr>tower_attributes :=
               replicate (if hvs_towers s1 \<noteq> 0 then hvs_towers s1 else 1) new_tower,
             state := 3\<rparr>"
    by (elim exE conjE)
  have "hvs_towers s1 < 16"
    using parse_packet0_towers [of d s2] s1 by (simp add: on_success_def)
  then show ?thesis
    unfolding s' using assms(1) by (simp add: poll_measure_def)
qed

lemma state3_decreases:
  assumes "state s = 3" and "state3_send_request1 s tr = (None, s', tr')"
  shows "poll_measure s' < poll_measure s"
  using assms(2) unfolding state3_send_request1_def
  by (rule decode_step_decreases [where P = parse_packet1, OF _ parse_packet1_tw])
     (use assms(1) in \<open>auto simp add: poll_measure_def tw_def next_tower_def\<close>)

lemma state4_decreases:
  assumes "state s = 4" and "state4_send_request2 s tr = (None, s', tr')"
  shows "poll_measure s' < poll_measure s"
  using assms(2) unfolding state4_send_request2_def
  by (rule decode_step_decreases [where P = parse_packet2, OF _ parse_packet2_tw])
     (use assms(1) in \<open>auto simp add: poll_measure_def tw_def next_tower_def\<close>)

lemma state5_decreases:
  assumes "state s = 5" and "state5_start_measurement s tr = (None, s', tr')"
  shows "poll_measure s' < poll_measure s"
  using assms(2) unfolding state5_start_measurement_def
  by (rule plain_step_decreases)
     (use assms(1) in \<open>auto simp add: poll_measure_def tw_def\<close>)

lemma state6_decreases:
  assumes "state s = 6" and "state6_send_request4 s tr = (None, s', tr')"
  shows "poll_measure s' < poll_measure s"
  using assms(2) unfolding state6_send_request4_def
  by (rule plain_step_decreases)
     (use assms(1) in \<open>auto simp add: poll_measure_def tw_def\<close>)

lemma state7_decreases:
  assumes "state s = 7" and "state7_send_request5 s tr = (None, s', tr')"
  shows "poll_measure s' < poll_measure s"
  using assms(2) unfolding state7_send_request5_def
  by (rule decode_step_decreases [where P = "\<lambda>d s. parse_packet5 d (current_tower s) s", OF _ parse_packet5_tw])
     (use assms(1) in \<open>auto simp add: poll_measure_def tw_def next_tower_def\<close>)

lemma state8_decreases:
  assumes "state s = 8" and "state8_send_request6 s tr = (None, s', tr')"
  shows "poll_measure s' < poll_measure s"
  using assms(2) unfolding state8_send_request6_def
  by (rule decode_step_decreases [where P = "\<lambda>d s. parse_packet6 d (current_tower s) s", OF _ parse_packet6_tw])
     (use assms(1) in \<open>auto simp add: poll_measure_def tw_def next_tower_def\<close>)

lemma state9_decreases:
  assumes "state s = 9" and "state9_send_request7 s tr = (None, s', tr')"
  shows "poll_measure s' < poll_measure s"
  using assms(2) unfolding state9_send_request7_def
  by (rule decode_step_decreases [where P = "\<lambda>d s. parse_packet7 d (current_tower s) s", OF _ parse_packet7_tw])
     (use assms(1) in \<open>auto simp add: poll_measure_def tw_def next_tower_def\<close>)

lemma state10_decreases:
  assumes "state s = 10" and "state10_send_request8 s tr = (None, s', tr')"
  shows "poll_measure s' < poll_measure s"
  using assms(2) unfolding state10_send_request8_def
  by (rule decode_step_decreases [where P = "\<lambda>d s. parse_packet8 d (current_tower s) s", OF _ parse_packet8_tw])
     (use assms(1) in \<open>auto simp add: poll_measure_def tw_def next_tower_def\<close>)

lemma state11_decreases:
  assumes "state s = 11" and "state11_send_request9 s tr = (None, s', tr')"
  shows "poll_measure s' < poll_measure s"
  using assms(2) unfolding state11_send_request9_def
  by (rule plain_step_decreases)
     (use assms(1) in \<open>auto simp add: poll_measure_def tw_def\<close>)

lemma state12_decreases:
  assumes "state s = 12" and "state12_send_request10 s tr = (None, s', tr')"
  shows "poll_measure s' < poll_measure s"
  using assms(2) unfolding state12_send_request10_def
  by (rule plain_step_decreases)
     (use assms(1) in \<open>auto simp add: poll_measure_def tw_def\<close>)

lemma state13_decreases:
  assumes "state s = 13" and "state13_send_request11 s tr = (None, s', tr')"
  shows "poll_measure s' < poll_measure s"
  using assms(2) unfolding state13_send_request11_def
  by (rule plain_step_decreases)
     (use assms(1) in \<open>auto simp add: poll_measure_def tw_def\<close>)

lemma state14_decreases:
  assumes "state s = 14" and "state14_send_request12 s tr = (None, s', tr')"
  shows "poll_measure s' < poll_measure s"
  using assms(2) unfolding state14_send_request12_def
  by (rule decode_step_decreases [where P = "\<lambda>d s. parse_packet12 d (current_tower s) s", OF _ parse_packet12_tw])
     (use assms(1) in \<open>auto simp add: poll_measure_def tw_def next_tower_def\<close>)

lemma state15_decreases:
  assumes "state s = 15" and "state15_send_request13 s tr = (None, s', tr')"
  shows "poll_measure s' < poll_measure s"
  using assms(2) unfolding state15_send_request13_def
  by (rule decode_step_decreases [where P = "\<lambda>d s. parse_packet13 d (current_tower s) s", OF _ parse_packet13_tw])
     (use assms(1) in \<open>auto simp add: poll_measure_def tw_def next_tower_def\<close>)

lemma state_action_simps:
  "state s = 2 \<Longrightarrow> state_action s tr = state2_send_request0 s tr"
  "state s = 3 \<Longrightarrow> state_action s tr = state3_send_request1 s tr"
  "state s = 4 \<Longrightarrow> state_action s tr = state4_send_request2 s tr"
  "state s = 5 \<Longrightarrow> state_action s tr = state5_start_measurement s tr"
  "state s = 6 \<Longrightarrow> state_action s tr = state6_send_request4 s tr"
  "state s = 7 \<Longrightarrow> state_action s tr = state7_send_request5 s tr"
  "state s = 8 \<Longrightarrow> state_action s tr = state8_send_request6 s tr"
  "state s = 9 \<Longrightarrow> state_action s tr = state9_send_request7 s tr"
  "state s = 10 \<Longrightarrow> state_action s tr = state10_send_request8 s tr"
  "state s = 11 \<Longrightarrow> state_action s tr = state11_send_request9 s tr"
  "state s = 12 \<Longrightarrow> state_action s tr = state12_send_request10 s tr"
  "state s = 13 \<Longrightarrow> state_action s tr = state13_send_request11 s tr"
  "state s = 14 \<Longrightarrow> state_action s tr = state14_send_request12 s tr"
  "state s = 15 \<Longrightarrow> state_action s tr = state15_send_request13 s tr"
  by (simp_all add: state_action_def)

lemma state_action_split:
  "state_action s tr = (None, s\<lparr>state := 0\<rparr>, tr)
   \<or> state s = 2 \<and> state_action s tr = state2_send_request0 s tr
   \<or> state s = 3 \<and> state_action s tr = state3_send_request1 s tr
   \<or> state s = 4 \<and> state_action s tr = state4_send_request2 s tr
   \<or> state s = 5 \<and> state_action s tr = state5_start_measurement s tr
   \<or> state s = 6 \<and> state_action s tr = state6_send_request4 s tr
   \<or> state s = 7 \<and> state_action s tr = state7_send_request5 s tr
   \<or> state s = 8 \<and> state_action s tr = state8_send_request6 s tr
   \<or> state s = 9 \<and> state_action s tr = state9_send_request7 s tr
   \<or> state s = 10 \<and> state_action s tr = state10_send_request8 s tr
   \<or> state s = 11 \<and> state_action s tr = state11_send_request9 s tr
   \<or> state s = 12 \<and> state_action s tr = state12_send_request10 s tr
   \<or> state s = 13 \<and> state_action s tr = state13_send_request11 s tr
   \<or> state s = 14 \<and> state_action s tr = state14_send_request12 s tr
   \<or> state s = 15 \<and> state_action s tr = state15_send_request13 s tr"
  by (simp add: state_action_def)

lemma state_action_decreases:
  assumes nz: "state s \<noteq> 0" and run: "state_action s tr = (None, s', tr')"
  shows "poll_measure s' < poll_measure s"
  using state_action_split [of s tr]
proof (elim disjE conjE)
  assume "state_action s tr = (None, s\<lparr>state := 0\<rparr>, tr)"
  then show ?thesis
    using run nz by (auto simp add: poll_measure_def)
next
  assume "state s = 2" "state_action s tr = state2_send_request0 s tr"
  then show ?thesis
    using run state2_decreases [of s tr s' tr'] by simp
next
  assume "state s = 3" "state_action s tr = state3_send_request1 s tr"
  then show ?thesis
    using run state3_decreases [of s tr s' tr'] by simp
next
  assume "state s = 4" "state_action s tr = state4_send_request2 s tr"
  then show ?thesis
    using run state4_decreases [of s tr s' tr'] by simp
next
  assume "state s = 5" "state_action s tr = state5_start_measurement s tr"
  then show ?thesis
    using run state5_decreases [of s tr s' tr'] by simp
next
  assume "state s = 6" "state_action s tr = state6_send_request4 s tr"
  then show ?thesis
    using run state6_decreases [of s tr s' tr'] by simp
next
  assume "state s = 7" "state_action s tr = state7_send_request5 s tr"
  then show ?thesis
    using run state7_decreases [of s tr s' tr'] by simp
next
  assume "state s = 8" "state_action s tr = state8_send_request6 s tr"
  then show ?thesis
    using run state8_decreases [of s tr s' tr'] by simp
next
  assume "state s = 9" "state_action s tr = state9_send_request7 s tr"
  then show ?thesis
    using run state9_decreases [of s tr s' tr'] by simp
next
  assume "state s = 10" "state_action s tr = state10_send_request8 s tr"
  then show ?thesis
    using run state10_decreases [of s tr s' tr'] by simp
next
  assume "state s = 11" "state_action s tr = state11_send_request9 s tr"
  then show ?thesis
    using run state11_decreases [of s tr s' tr'] by simp
next
  assume "state s = 12" "state_action s tr = state12_send_request10 s tr"
  then show ?thesis
    using run state12_decreases [of s tr s' tr'] by simp
next
  assume "state s = 13" "state_action s tr = state13_send_request11 s tr"
  then show ?thesis
    using run state13_decreases [of s tr s' tr'] by simp
next
  assume "state s = 14" "state_action s tr = state14_send_request12 s tr"
  then show ?thesis
    using run state14_decreases [of s tr s' tr'] by simp
next
  assume "state s = 15" "state_action s tr = state15_send_request13 s tr"
  then show ?thesis
    using run state15_decreases [of s tr s' tr'] by simp
qed

lemma poll_measure_log [simp]:
  "poll_measure (s\<lparr>state_action_list := v\<rparr>) = poll_measure s"
  by (simp add: poll_measure_def)

lemma loop_body_decreases:
  assumes "0 < state s" and "(None, s', tr') = loop_body s tr"
  shows "poll_measure s' < poll_measure s"
  using state_action_decreases
    [of "s\<lparr>state_action_list := state_action_list s @ [state s]\<rparr>" tr s' tr'] assms
  by (simp add: loop_body_def)

function poll_loop :: "bydhvs \<Rightarrow> transport \<Rightarrow> error option \<times> bydhvs \<times> transport" where
  "poll_loop s tr =
     (if state s = 0 then (None, s, tr)
      else case loop_body s tr of
             (Some e, s', tr') \<Rightarrow> (Some e, s', tr')
           | (None, s', tr') \<Rightarrow> poll_loop s' tr')"
  by pat_completeness auto
termination
  apply (relation "measure (\<lambda>(s, tr). poll_measure s)")
   apply auto
  apply (erule (1) loop_body_decreases)
  done

declare poll_loop.simps [simp del]

text \<open>
  \<^verbatim>\<open>poll\<close>: the entry guard, the reset of the cycle, \<^verbatim>\<open>_connect\<close> (whose
  exceptions are not caught here), the loop, and \<^verbatim>\<open>_close\<close> (not guarded either)
  with the final \<^verbatim>\<open>self._state = 0\<close>. An exception that escapes leaves the object
  as it is at that moment.
\<close>

definition poll :: "bydhvs \<Rightarrow> transport \<Rightarrow> error option \<times> bydhvs \<times> transport" where
  "poll s tr =
     (if state s \<noteq> 0 then (None, s, tr)
      else
        let s1 = s\<lparr>state := 1, current_tower := 0, state_action_list := []\<rparr>
        in case connect s1 tr of
             (Some e, s2, tr2) \<Rightarrow> (Some e, s2, tr2)
           | (None, s2, tr2) \<Rightarrow>
               (case poll_loop s2 tr2 of
                  (Some e, s3, tr3) \<Rightarrow> (Some e, s3, tr3)
                | (None, s3, tr3) \<Rightarrow>
                    (case close s3 tr3 of
                       (Some e, s4, tr4) \<Rightarrow> (Some e, s4, tr4)
                     | (None, s4, tr4) \<Rightarrow> (None, s4\<lparr>state := 0\<rparr>, tr4))))"

section \<open>Properties of the checksum\<close>

lemma crc_shift_low_clear: "\<not> bit c 0 \<Longrightarrow> crc_shift c = drop_bit 1 c"
  by (simp add: crc_shift_def)

lemma crc_shift_funpow:
  "(\<And>k. k < n \<Longrightarrow> \<not> bit c k) \<Longrightarrow> (crc_shift ^^ n) c = drop_bit n c"
proof (induction n)
  case 0
  show ?case by simp
next
  case (Suc n)
  have low: "\<not> bit (drop_bit n c) 0"
    using Suc.prems [of n] by (simp add: bit_drop_bit_eq)
  have "(crc_shift ^^ Suc n) c = crc_shift (drop_bit n c)"
    using Suc by simp
  also have "\<dots> = drop_bit 1 (drop_bit n c)"
    using low by (rule crc_shift_low_clear)
  also have "\<dots> = drop_bit (Suc n) c"
    by (simp add: drop_bit_drop_bit)
  finally show ?case .
qed

lemma crc_update_funpow: "crc_update c b = (crc_shift ^^ 8) (c XOR ucast b)"
  unfolding crc_update_def
  by (simp only: funpow.simps o_apply id_apply
        numeral_eq_Suc pred_numeral_simps Num.BitM.simps One_nat_def)

lemma crc_update_low_byte: "crc_update c (ucast c) = drop_bit 8 c"
proof -
  let ?x = "c XOR ucast (ucast c :: byte)"
  have clear: "\<not> bit ?x k" if "k < 8" for k
    using that by (auto simp add: bit_simps)
  have "crc_update c (ucast c) = drop_bit 8 ?x"
    unfolding crc_update_funpow using clear by (rule crc_shift_funpow)
  also have "\<dots> = drop_bit 8 c"
    by (rule bit_word_eqI) (auto simp add: bit_simps)
  finally show ?thesis .
qed

lemma crc_update_high_byte:
  "crc_update (drop_bit 8 c) (ucast (drop_bit 8 c)) = 0"
proof -
  let ?h = "drop_bit 8 c :: 16 word"
  have zero: "?h XOR ucast (ucast ?h :: byte) = 0"
    by (rule bit_word_eqI) (auto simp add: bit_simps dest: bit_imp_le_length)
  have "crc_update ?h (ucast ?h) = (crc_shift ^^ 8) 0"
    unfolding crc_update_funpow zero ..
  also have "\<dots> = drop_bit 8 (0 :: 16 word)"
    by (rule crc_shift_funpow) simp
  finally show ?thesis by simp
qed

lemma CRC16_mk_frame: "CRC16 (mk_frame payload) = 0"
  by (simp add: mk_frame_def crc_bytes_def CRC16_def
        crc_update_low_byte crc_update_high_byte)

lemma length_mk_frame: "length (mk_frame payload) = length payload + 2"
  by (simp add: mk_frame_def crc_bytes_def)

lemma nth_mk_frame: "i < length payload \<Longrightarrow> mk_frame payload ! i = payload ! i"
  by (simp add: mk_frame_def nth_append)

text \<open>
  The request frames of the source carry their own checksum; over the whole frame the
  register ends at zero.
\<close>

lemma CRC16_read_measurement_status:
  "CRC16 [0x01, 0x03, 0x05, 0x51, 0x00, 0x01, 0xd5, 0x17] = 0"
  by (simp add: CRC16_def crc_update_def crc_shift_def)

section \<open>Claims on validation and field decoding\<close>

text \<open>
  Claim C1. \<^verbatim>\<open>_check_packet\<close> accepts a buffer exactly when it has at least five
  bytes, byte 0 is the unit id 1, byte 1 is 3 or 16, for function code 3 the declared
  length at byte 2 plus 5 is the length of the buffer (no such test for 16), and the
  CRC-16/MODBUS register over the whole buffer, checksum bytes included, is zero.
\<close>

theorem check_packet_iff:
  "check_packet d \<longleftrightarrow>
     5 \<le> length d \<and> unat (d ! 0) = 1 \<and> (unat (d ! 1) = 3 \<or> unat (d ! 1) = 16) \<and>
     (unat (d ! 1) = 3 \<longrightarrow> unat (d ! 2) + 5 = length d) \<and> CRC16 d = 0"
  by (auto simp add: check_packet_def Let_def)

theorem check_packet_iff_witness:
  "check_packet [0x01, 0x03, 0x02, 0x00, 0x00, 0xb8, 0x44] \<and>
   \<not> check_packet [0x01, 0x03, 0x03, 0x00, 0x00, 0xb8, 0x44] \<and>
   check_packet [0x01, 0x10, 0x00, 0x2d, 0xc0]"
proof -
  have a: "CRC16 [0x01, 0x03, 0x02, 0x00, 0x00, 0xb8, 0x44] = 0"
    by (simp add: CRC16_def crc_update_def crc_shift_def)
  have b: "CRC16 [0x01, 0x10, 0x00, 0x2d, 0xc0] = 0"
    by (simp add: CRC16_def crc_update_def crc_shift_def)
  show ?thesis
    using a b
    by (simp add: check_packet_iff [of "[0x01, 0x03, 0x02, 0x00, 0x00, 0xb8, 0x44]"]
          check_packet_iff [of "[0x01, 0x03, 0x03, 0x00, 0x00, 0xb8, 0x44]"]
          check_packet_iff [of "[0x01, 0x10, 0x00, 0x2d, 0xc0]"])
qed

text \<open>
  Claim C6. When four bytes are available from \<open>pos\<close>, \<^verbatim>\<open>_buf2int32_us\<close> returns
  \<open>data[pos+2] * 2^24 + data[pos+3] * 2^16 + data[pos] * 2^8 + data[pos+1]\<close>.
\<close>

theorem buf2int32_us_permutation:
  "pos + 4 \<le> length data \<Longrightarrow>
     buf2int32_us data pos =
       Inr (unat (data ! (pos + 2)) * 2 ^ 24 + unat (data ! (pos + 3)) * 2 ^ 16 +
            unat (data ! pos) * 2 ^ 8 + unat (data ! (pos + 1)))"
  by (simp add: buf2int32_us_def getitem_def bind_err_def)

theorem buf2int32_us_permutation_witness:
  "buf2int32_us [0x01, 0x02, 0x03, 0x04] 0 = Inr 0x03040102 \<and>
   buf2int32_us [0x01, 0x02, 0x03, 0x04] 0 \<noteq> Inr 0x01020304 \<and>
   buf2int32_us [0x01, 0x02, 0x03, 0x04] 0 \<noteq> Inr 0x04030201"
  using buf2int32_us_permutation [of 0 "[0x01, 0x02, 0x03, 0x04]"]
  by simp

section \<open>Rejected replies\<close>

lemma request_reply_rejected:
  assumes "\<not> accepted (fst (receive_response s tr))"
  shows "\<exists>tr'. request_reply req f s tr = (None, s\<lparr>state := 0\<rparr>, tr')"
proof -
  obtain s1 tr1 where snd: "(case req of None \<Rightarrow> (s, tr) | Some r \<Rightarrow> send_request r s tr) = (s1, tr1)"
    by (cases "case req of None \<Rightarrow> (s, tr) | Some r \<Rightarrow> send_request r s tr")
  have s1: "s1\<lparr>state := 0\<rparr> = s\<lparr>state := 0\<rparr>" "reader s1 = reader s" "recvs tr1 = recvs tr"
    using snd
    by (cases req; auto simp add: send_request_def Let_def split: if_splits send_result.splits)+
  obtain data s2 tr2 where rcv: "receive_response s1 tr1 = (data, s2, tr2)"
    by (cases "receive_response s1 tr1")
  have same: "data = fst (receive_response s tr)"
    using rcv s1(2,3)
    by (auto simp add: receive_response_def Let_def split: if_splits recv_result.splits)
  have s2: "s2\<lparr>state := 0\<rparr> = s\<lparr>state := 0\<rparr>"
    using receive_response_cases [OF rcv] s1(1) by simp
  show ?thesis
  proof (cases data)
    case None
    then show ?thesis
      using snd rcv s2 by (simp add: request_reply_def)
  next
    case (Some d)
    then have "\<not> accepted (Some d)"
      using assms same by simp
    then show ?thesis
      using snd rcv s2 Some by (simp add: request_reply_def)
  qed
qed

lemma receive_response_log [simp]:
  "fst (receive_response (s\<lparr>state_action_list := l\<rparr>) tr) = fst (receive_response s tr)"
  by (simp add: receive_response_def Let_def split: recv_result.splits)

lemma state_action_rejected:
  assumes "2 \<le> state s" "state s \<le> 15" "\<not> accepted (fst (receive_response s tr))"
  shows "\<exists>tr'. state_action s tr = (None, s\<lparr>state := 0\<rparr>, tr')"
  using state_action_split [of s tr]
  by (elim disjE conjE)
     (simp_all add: request_reply_rejected [OF assms(3)]
        state2_send_request0_def state3_send_request1_def state4_send_request2_def
        state5_start_measurement_def state6_send_request4_def state7_send_request5_def
        state8_send_request6_def state9_send_request7_def state10_send_request8_def
        state11_send_request9_def state12_send_request10_def state13_send_request11_def
        state14_send_request12_def state15_send_request13_def)

text \<open>
  Claim C2. In each of the dialogue states 2 to 15, when the reply of that state is
  absent (no reader, or a caught receive fault) or fails \<^verbatim>\<open>data and _check_packet(data)\<close>,
  the loop ends without an exception: the state is 0, the trace ends with the number of
  that state, and every other attribute of the object is what it was, so no decoder has
  assigned anything.
\<close>

theorem invalid_reply_stops:
  assumes "2 \<le> state s" and "state s \<le> 15"
      and "\<not> accepted (fst (receive_response s tr))"
  shows "\<exists>tr'. poll_loop s tr =
           (None, s\<lparr>state_action_list := state_action_list s @ [state s], state := 0\<rparr>, tr')"
proof -
  let ?s = "s\<lparr>state_action_list := state_action_list s @ [state s]\<rparr>"
  have "\<exists>tr'. state_action ?s tr = (None, ?s\<lparr>state := 0\<rparr>, tr')"
    using assms by (intro state_action_rejected) simp_all
  then obtain tr' where "loop_body s tr = (None, ?s\<lparr>state := 0\<rparr>, tr')"
    by (auto simp add: loop_body_def)
  moreover have "state s \<noteq> 0" using assms(1) by simp
  ultimately have "poll_loop s tr = poll_loop (?s\<lparr>state := 0\<rparr>) tr'"
    by (subst poll_loop.simps) simp
  also have "\<dots> = (None, ?s\<lparr>state := 0\<rparr>, tr')"
    by (subst poll_loop.simps) simp
  finally show ?thesis by blast
qed

definition idle_transport :: transport where
  "idle_transport =
     \<lparr> connect_result = Connected, sends = (\<lambda>n. Sent), recvs = (\<lambda>n. RecvTimeout),
       close_result = Closed, is_open = True, written = [] \<rparr>"

theorem invalid_reply_stops_witness:
  "\<exists>tr'. poll_loop (init_bydhvs\<lparr>reader := True, writer := True, state := 7\<rparr>)
           (idle_transport\<lparr>recvs := (\<lambda>n. Data [0x01, 0x03, 0x02, 0x00, 0x00, 0xb8, 0x45])\<rparr>) =
         (None, init_bydhvs\<lparr>reader := True, writer := True, state_action_list := [7],
                  state := 0\<rparr>, tr')"
proof -
  have bad: "CRC16 [0x01, 0x03, 0x02, 0x00, 0x00, 0xb8, 0x45] \<noteq> 0"
    by (simp add: CRC16_def crc_update_def crc_shift_def)
  show ?thesis
    using invalid_reply_stops
      [of "init_bydhvs\<lparr>reader := True, writer := True, state := 7\<rparr>"
          "idle_transport\<lparr>recvs := (\<lambda>n. Data [0x01, 0x03, 0x02, 0x00, 0x00, 0xb8, 0x45])\<rparr>"] bad
    by (simp add: receive_response_def accepted_def check_packet_def init_bydhvs_def
          idle_transport_def)
qed

text \<open>
  Claim C8. \<^verbatim>\<open>poll\<close> called while the state is not 0 returns at once: the object,
  with its state, tower index, trace, tower list and every other attribute, and the
  transport are unchanged.
\<close>

theorem poll_already_running:
  "state s \<noteq> 0 \<Longrightarrow> poll s tr = (None, s, tr)"
  by (simp add: poll_def)

theorem poll_already_running_witness:
  "poll (init_bydhvs\<lparr>state := 7\<rparr>) idle_transport = (None, init_bydhvs\<lparr>state := 7\<rparr>, idle_transport)"
  using poll_already_running [of "init_bydhvs\<lparr>state := 7\<rparr>" idle_transport]
  by simp

text \<open>
  Claim C3 as stated fails where the connection cannot be opened: the exception that
  \<^verbatim>\<open>_connect\<close> raises escapes \<^verbatim>\<open>poll\<close>, and the state is not 0 afterwards.
\<close>

theorem connect_failure_escapes:
  "poll init_bydhvs (idle_transport\<lparr>connect_result := ConnectOSError, is_open := False\<rparr>) =
     (Some BYDHVSConnectionError,
      init_bydhvs\<lparr>state := 1\<rparr>,
      idle_transport\<lparr>connect_result := ConnectOSError, is_open := False\<rparr>)"
  by (simp add: poll_def connect_def init_bydhvs_def idle_transport_def)

section \<open>What a polling cycle leaves behind\<close>

definition link :: "bydhvs \<Rightarrow> bool \<times> bool" where
  "link s = (reader s, writer s)"

definition line :: "transport \<Rightarrow> bool \<times> close_result" where
  "line tr = (is_open tr, close_result tr)"

text \<open>The exceptions a decoder can raise.\<close>

definition decoder_errors :: "error set" where
  "decoder_errors = {IndexError, ValueError, UnicodeDecodeError}"

definition raises_only :: "error set \<Rightarrow> error option \<Rightarrow> bool" where
  "raises_only E e = (case e of None \<Rightarrow> True | Some x \<Rightarrow> x \<in> E)"

lemma raises_only_attempt:
  "(\<And>e. m = Inl e \<Longrightarrow> e \<in> E) \<Longrightarrow> (\<And>x. raises_only E (fst (k x))) \<Longrightarrow>
   raises_only E (fst (attempt m s k))"
  by (simp add: attempt_def raises_only_def split: sum.splits)

lemma raises_only_let: "(\<And>x. raises_only E (fst (f x))) \<Longrightarrow> raises_only E (fst (Let a f))"
  by simp

lemma raises_only_result: "raises_only E (fst (None, s))"
  by (simp add: raises_only_def)

lemmas raises_only_intros = raises_only_attempt raises_only_let raises_only_result

lemma getitem_Inl: "getitem data i = Inl e \<Longrightarrow> e \<in> decoder_errors"
  by (simp add: getitem_def decoder_errors_def split: if_splits)

lemma buf2int32_us_Inl: "buf2int32_us data pos = Inl e \<Longrightarrow> e \<in> decoder_errors"
  by (auto simp add: buf2int32_us_def bind_err_def getitem_def decoder_errors_def
        split: if_splits)

lemma decode_ascii_Inl: "decode_ascii bs = Inl e \<Longrightarrow> e \<in> decoder_errors"
  by (simp add: decode_ascii_def decoder_errors_def split: if_splits)

lemma int_of_hex_Inl: "int_of_hex str = Inl e \<Longrightarrow> e \<in> decoder_errors"
  by (simp add: int_of_hex_def decoder_errors_def split: if_splits)

lemma get_tower_Inl: "get_tower s n = Inl e \<Longrightarrow> e \<in> decoder_errors"
  by (simp add: get_tower_def decoder_errors_def split: if_splits)

lemma guarded_truediv_Inl:
  "(if \<not> quotient_is_zero q then py_truediv a q else Inr z) = Inl e \<Longrightarrow>
   e \<in> decoder_errors"
  by (simp add: py_truediv_def split: if_splits)

lemma guarded_truediv_nat_Inl:
  "(if (c :: nat) \<noteq> 0 then int_truediv a (int c) else Inr z) = Inl e \<Longrightarrow>
   e \<in> decoder_errors"
  by (simp add: int_truediv_def split: if_splits)

lemmas decoder_Inl =
  getitem_Inl buf2int32_us_Inl decode_ascii_Inl int_of_hex_Inl get_tower_Inl
  guarded_truediv_Inl guarded_truediv_nat_Inl

lemma parse_packet0_raises: "raises_only decoder_errors (fst (parse_packet0 data s))"
  unfolding parse_packet0_def
  by (intro raises_only_intros) (erule decoder_Inl)+

lemma parse_packet0_link: "link (snd (parse_packet0 data s)) = link s"
  apply (rule keepsI)
  unfolding parse_packet0_def
  apply (intro keeps_intros)
  apply (simp_all add: keeps_def link_def upd_tower_def)
  done

lemma parse_packet1_raises: "raises_only decoder_errors (fst (parse_packet1 data s))"
  unfolding parse_packet1_def
  by (intro raises_only_intros) (erule decoder_Inl)+

lemma parse_packet1_link: "link (snd (parse_packet1 data s)) = link s"
  apply (rule keepsI)
  unfolding parse_packet1_def
  apply (intro keeps_intros)
  apply (simp_all add: keeps_def link_def upd_tower_def)
  done

lemma parse_packet2_raises: "raises_only decoder_errors (fst (parse_packet2 data s))"
  unfolding parse_packet2_def
  by (intro raises_only_intros) (erule decoder_Inl)+

lemma parse_packet2_link: "link (snd (parse_packet2 data s)) = link s"
  apply (rule keepsI)
  unfolding parse_packet2_def
  apply (intro keeps_intros)
  apply (simp_all add: keeps_def link_def upd_tower_def)
  done

lemma parse_packet5_raises: "raises_only decoder_errors (fst (parse_packet5 data n s))"
  unfolding parse_packet5_def
  by (intro raises_only_intros) (erule decoder_Inl)+

lemma parse_packet5_link: "link (snd (parse_packet5 data n s)) = link s"
  apply (rule keepsI)
  unfolding parse_packet5_def
  apply (intro keeps_intros)
  apply (simp_all add: keeps_def link_def upd_tower_def)
  done

lemma parse_packet6_raises: "raises_only decoder_errors (fst (parse_packet6 data n s))"
  unfolding parse_packet6_def
  by (intro raises_only_intros) (erule decoder_Inl)+

lemma parse_packet6_link: "link (snd (parse_packet6 data n s)) = link s"
  apply (rule keepsI)
  unfolding parse_packet6_def
  apply (intro keeps_intros)
  apply (simp_all add: keeps_def link_def upd_tower_def)
  done

lemma parse_packet7_raises: "raises_only decoder_errors (fst (parse_packet7 data n s))"
  unfolding parse_packet7_def
  by (intro raises_only_intros) (erule decoder_Inl)+

lemma parse_packet7_link: "link (snd (parse_packet7 data n s)) = link s"
  apply (rule keepsI)
  unfolding parse_packet7_def
  apply (intro keeps_intros)
  apply (simp_all add: keeps_def link_def upd_tower_def)
  done

lemma parse_packet8_raises: "raises_only decoder_errors (fst (parse_packet8 data n s))"
  unfolding parse_packet8_def
  by (intro raises_only_intros) (erule decoder_Inl)+

lemma parse_packet8_link: "link (snd (parse_packet8 data n s)) = link s"
  apply (rule keepsI)
  unfolding parse_packet8_def
  apply (intro keeps_intros)
  apply (simp_all add: keeps_def link_def upd_tower_def)
  done

lemma parse_packet12_raises: "raises_only decoder_errors (fst (parse_packet12 data n s))"
  unfolding parse_packet12_def
  by (intro raises_only_intros) (erule decoder_Inl)+

lemma parse_packet12_link: "link (snd (parse_packet12 data n s)) = link s"
  apply (rule keepsI)
  unfolding parse_packet12_def
  apply (intro keeps_intros)
  apply (simp_all add: keeps_def link_def upd_tower_def)
  done

lemma parse_packet13_raises: "raises_only decoder_errors (fst (parse_packet13 data n s))"
  unfolding parse_packet13_def
  by (intro raises_only_intros) (erule decoder_Inl)+

lemma parse_packet13_link: "link (snd (parse_packet13 data n s)) = link s"
  apply (rule keepsI)
  unfolding parse_packet13_def
  apply (intro keeps_intros)
  apply (simp_all add: keeps_def link_def upd_tower_def)
  done

lemma link_upd [simp]:
  "link (s\<lparr>state := v\<rparr>) = link s"
  "link (s\<lparr>state_action_list := l\<rparr>) = link s"
  "link (s\<lparr>tower_attributes := ts\<rparr>) = link s"
  "link (s\<lparr>current_tower := c\<rparr>) = link s"
  "link (next_tower s) = link s"
  by (simp_all add: link_def next_tower_def)

lemma link_modulo_state: "s2\<lparr>state := 0\<rparr> = s\<lparr>state := 0\<rparr> \<Longrightarrow> link s2 = link s"
  by (drule arg_cong [where f = link]) simp

lemma send_request_open:
  "send_request r s tr = (s1, tr1) \<Longrightarrow> line tr1 = line tr"
  by (auto simp add: send_request_def line_def Let_def split: if_splits send_result.splits)

lemma receive_response_open:
  "receive_response s tr = (data, s2, tr2) \<Longrightarrow> line tr2 = line tr"
  by (auto simp add: receive_response_def line_def Let_def split: if_splits recv_result.splits)

lemma request_reply_result:
  assumes run: "request_reply req f s tr = (e, s', tr')"
  shows "line tr' = line tr \<and>
         ((e = None \<and> state s' = 0 \<and> s'\<lparr>state := 0\<rparr> = s\<lparr>state := 0\<rparr>) \<or>
          (\<exists>d s2. s2\<lparr>state := 0\<rparr> = s\<lparr>state := 0\<rparr> \<and> f d s2 = (e, s')))"
proof -
  obtain s1 tr1 where snd: "(case req of None \<Rightarrow> (s, tr) | Some r \<Rightarrow> send_request r s tr) = (s1, tr1)"
    by (cases "case req of None \<Rightarrow> (s, tr) | Some r \<Rightarrow> send_request r s tr")
  obtain data s2 tr2 where rcv: "receive_response s1 tr1 = (data, s2, tr2)"
    by (cases "receive_response s1 tr1")
  have s1: "s1\<lparr>state := 0\<rparr> = s\<lparr>state := 0\<rparr>" "line tr1 = line tr"
    using snd send_request_cases send_request_open by (cases req; auto)+
  have s2: "s2\<lparr>state := 0\<rparr> = s\<lparr>state := 0\<rparr>" "line tr2 = line tr"
    using receive_response_cases [OF rcv] receive_response_open [OF rcv] s1 by simp_all
  show ?thesis
  proof (cases data)
    case None
    then show ?thesis
      using run snd rcv s2 by (auto simp add: request_reply_def)
  next
    case (Some d)
    show ?thesis
    proof (cases "accepted (Some d)")
      case True
      then have "f d s2 = (e, s')" "tr' = tr2"
        using run snd rcv Some by (auto simp add: request_reply_def split: prod.splits)
      then show ?thesis using s2 by blast
    next
      case False
      then show ?thesis
        using run snd rcv Some s2 by (auto simp add: request_reply_def)
    qed
  qed
qed

lemma and_then_result:
  "and_then r g = (e, s') \<Longrightarrow>
     e = fst r \<and> (s' = g (snd r) \<or> s' = snd r)"
  by (auto simp add: and_then_def split: prod.splits option.splits)

text \<open>A handler keeps the streams and raises at most what its decoder raises.\<close>

lemma decode_step_result:
  assumes run: "request_reply req (\<lambda>d s. and_then (P d s) g) s tr = (e, s', tr')"
      and frame: "\<And>d s. link (snd (P d s)) = link s"
      and errs: "\<And>d s. raises_only decoder_errors (fst (P d s))"
      and g: "\<And>s1. link (g s1) = link s1"
  shows "link s' = link s \<and> line tr' = line tr \<and> raises_only decoder_errors e"
  using request_reply_result [OF run]
proof (elim disjE exE conjE)
  assume "line tr' = line tr" "e = None" "state s' = 0"
    "s'\<lparr>state := 0\<rparr> = s\<lparr>state := 0\<rparr>"
  then show ?thesis using link_modulo_state [of s' s] by (simp add: raises_only_def)
next
  fix d s2
  assume op: "line tr' = line tr" and s2: "s2\<lparr>state := 0\<rparr> = s\<lparr>state := 0\<rparr>"
     and res: "and_then (P d s2) g = (e, s')"
  from and_then_result [OF res]
  have e: "e = fst (P d s2)" and s': "s' = g (snd (P d s2)) \<or> s' = snd (P d s2)"
    by simp_all
  have "link s' = link (snd (P d s2))"
    using s' g by auto
  then have "link s' = link s"
    using frame [of d s2] link_modulo_state [OF s2] by simp
  then show ?thesis
    using op e errs [of d s2] by simp
qed

lemma plain_step_result:
  assumes run: "request_reply req (\<lambda>d s. (None, g s)) s tr = (e, s', tr')"
      and g: "\<And>s1. link (g s1) = link s1"
  shows "link s' = link s \<and> line tr' = line tr \<and> raises_only decoder_errors e"
  using request_reply_result [OF run]
proof (elim disjE exE conjE)
  assume "line tr' = line tr" "e = None" "state s' = 0"
    "s'\<lparr>state := 0\<rparr> = s\<lparr>state := 0\<rparr>"
  then show ?thesis using link_modulo_state [of s' s] by (simp add: raises_only_def)
next
  fix d :: "byte list" and s2
  assume op: "line tr' = line tr" and s2: "s2\<lparr>state := 0\<rparr> = s\<lparr>state := 0\<rparr>"
     and res: "(None, g s2) = (e, s')"
  have "link s' = link s2" using res g [of s2] by auto
  then show ?thesis
    using op res link_modulo_state [OF s2] by (auto simp add: raises_only_def)
qed

lemma state2_result:
  assumes "state2_send_request0 s tr = (e, s', tr')"
  shows "link s' = link s \<and> line tr' = line tr \<and> raises_only decoder_errors e"
  using assms unfolding state2_send_request0_def
  by (rule decode_step_result [where P = parse_packet0, OF _ parse_packet0_link parse_packet0_raises]) simp

lemma state3_result:
  assumes "state3_send_request1 s tr = (e, s', tr')"
  shows "link s' = link s \<and> line tr' = line tr \<and> raises_only decoder_errors e"
  using assms unfolding state3_send_request1_def
  by (rule decode_step_result [where P = parse_packet1, OF _ parse_packet1_link parse_packet1_raises]) simp

lemma state4_result:
  assumes "state4_send_request2 s tr = (e, s', tr')"
  shows "link s' = link s \<and> line tr' = line tr \<and> raises_only decoder_errors e"
  using assms unfolding state4_send_request2_def
  by (rule decode_step_result [where P = parse_packet2, OF _ parse_packet2_link parse_packet2_raises]) simp

lemma state5_result:
  assumes "state5_start_measurement s tr = (e, s', tr')"
  shows "link s' = link s \<and> line tr' = line tr \<and> raises_only decoder_errors e"
  using assms unfolding state5_start_measurement_def
  by (rule plain_step_result) simp

lemma state6_result:
  assumes "state6_send_request4 s tr = (e, s', tr')"
  shows "link s' = link s \<and> line tr' = line tr \<and> raises_only decoder_errors e"
  using assms unfolding state6_send_request4_def
  by (rule plain_step_result) simp

lemma state7_result:
  assumes "state7_send_request5 s tr = (e, s', tr')"
  shows "link s' = link s \<and> line tr' = line tr \<and> raises_only decoder_errors e"
  using assms unfolding state7_send_request5_def
  by (rule decode_step_result [where P = "\<lambda>d s. parse_packet5 d (current_tower s) s", OF _ parse_packet5_link parse_packet5_raises]) simp

lemma state8_result:
  assumes "state8_send_request6 s tr = (e, s', tr')"
  shows "link s' = link s \<and> line tr' = line tr \<and> raises_only decoder_errors e"
  using assms unfolding state8_send_request6_def
  by (rule decode_step_result [where P = "\<lambda>d s. parse_packet6 d (current_tower s) s", OF _ parse_packet6_link parse_packet6_raises]) simp

lemma state9_result:
  assumes "state9_send_request7 s tr = (e, s', tr')"
  shows "link s' = link s \<and> line tr' = line tr \<and> raises_only decoder_errors e"
  using assms unfolding state9_send_request7_def
  by (rule decode_step_result [where P = "\<lambda>d s. parse_packet7 d (current_tower s) s", OF _ parse_packet7_link parse_packet7_raises]) simp

lemma state10_result:
  assumes "state10_send_request8 s tr = (e, s', tr')"
  shows "link s' = link s \<and> line tr' = line tr \<and> raises_only decoder_errors e"
  using assms unfolding state10_send_request8_def
  by (rule decode_step_result [where P = "\<lambda>d s. parse_packet8 d (current_tower s) s", OF _ parse_packet8_link parse_packet8_raises]) simp

lemma state11_result:
  assumes "state11_send_request9 s tr = (e, s', tr')"
  shows "link s' = link s \<and> line tr' = line tr \<and> raises_only decoder_errors e"
  using assms unfolding state11_send_request9_def
  by (rule plain_step_result) simp

lemma state12_result:
  assumes "state12_send_request10 s tr = (e, s', tr')"
  shows "link s' = link s \<and> line tr' = line tr \<and> raises_only decoder_errors e"
  using assms unfolding state12_send_request10_def
  by (rule plain_step_result) simp

lemma state13_result:
  assumes "state13_send_request11 s tr = (e, s', tr')"
  shows "link s' = link s \<and> line tr' = line tr \<and> raises_only decoder_errors e"
  using assms unfolding state13_send_request11_def
  by (rule plain_step_result) simp

lemma state14_result:
  assumes "state14_send_request12 s tr = (e, s', tr')"
  shows "link s' = link s \<and> line tr' = line tr \<and> raises_only decoder_errors e"
  using assms unfolding state14_send_request12_def
  by (rule decode_step_result [where P = "\<lambda>d s. parse_packet12 d (current_tower s) s", OF _ parse_packet12_link parse_packet12_raises]) simp

lemma state15_result:
  assumes "state15_send_request13 s tr = (e, s', tr')"
  shows "link s' = link s \<and> line tr' = line tr \<and> raises_only decoder_errors e"
  using assms unfolding state15_send_request13_def
  by (rule decode_step_result [where P = "\<lambda>d s. parse_packet13 d (current_tower s) s", OF _ parse_packet13_link parse_packet13_raises]) simp

lemma state_action_result:
  assumes run: "state_action s tr = (e, s', tr')"
  shows "link s' = link s \<and> line tr' = line tr \<and> raises_only decoder_errors e"
  using state_action_split [of s tr]
proof (elim disjE conjE)
  assume "state_action s tr = (None, s\<lparr>state := 0\<rparr>, tr)"
  then show ?thesis
    using run by (auto simp add: raises_only_def)
next
  assume "state s = 2" "state_action s tr = state2_send_request0 s tr"
  then show ?thesis
    using run state2_result [of s tr e s' tr'] by simp
next
  assume "state s = 3" "state_action s tr = state3_send_request1 s tr"
  then show ?thesis
    using run state3_result [of s tr e s' tr'] by simp
next
  assume "state s = 4" "state_action s tr = state4_send_request2 s tr"
  then show ?thesis
    using run state4_result [of s tr e s' tr'] by simp
next
  assume "state s = 5" "state_action s tr = state5_start_measurement s tr"
  then show ?thesis
    using run state5_result [of s tr e s' tr'] by simp
next
  assume "state s = 6" "state_action s tr = state6_send_request4 s tr"
  then show ?thesis
    using run state6_result [of s tr e s' tr'] by simp
next
  assume "state s = 7" "state_action s tr = state7_send_request5 s tr"
  then show ?thesis
    using run state7_result [of s tr e s' tr'] by simp
next
  assume "state s = 8" "state_action s tr = state8_send_request6 s tr"
  then show ?thesis
    using run state8_result [of s tr e s' tr'] by simp
next
  assume "state s = 9" "state_action s tr = state9_send_request7 s tr"
  then show ?thesis
    using run state9_result [of s tr e s' tr'] by simp
next
  assume "state s = 10" "state_action s tr = state10_send_request8 s tr"
  then show ?thesis
    using run state10_result [of s tr e s' tr'] by simp
next
  assume "state s = 11" "state_action s tr = state11_send_request9 s tr"
  then show ?thesis
    using run state11_result [of s tr e s' tr'] by simp
next
  assume "state s = 12" "state_action s tr = state12_send_request10 s tr"
  then show ?thesis
    using run state12_result [of s tr e s' tr'] by simp
next
  assume "state s = 13" "state_action s tr = state13_send_request11 s tr"
  then show ?thesis
    using run state13_result [of s tr e s' tr'] by simp
next
  assume "state s = 14" "state_action s tr = state14_send_request12 s tr"
  then show ?thesis
    using run state14_result [of s tr e s' tr'] by simp
next
  assume "state s = 15" "state_action s tr = state15_send_request13 s tr"
  then show ?thesis
    using run state15_result [of s tr e s' tr'] by simp
qed

lemma loop_body_result:
  assumes "loop_body s tr = (e, s', tr')"
  shows "link s' = link s \<and> line tr' = line tr \<and> raises_only decoder_errors e"
  using state_action_result
    [of "s\<lparr>state_action_list := state_action_list s @ [state s]\<rparr>" tr e s' tr'] assms
  by (simp add: loop_body_def)

lemma poll_loop_result:
  assumes "poll_loop s tr = (e, s', tr')"
  shows "link s' = link s \<and> line tr' = line tr \<and> raises_only decoder_errors e \<and>
         (e = None \<longrightarrow> state s' = 0)"
  using assms
proof (induction s tr rule: poll_loop.induct)
  case (1 s tr)
  show ?case
  proof (cases "state s = 0")
    case True
    then show ?thesis
      using "1.prems" by (subst (asm) poll_loop.simps) (auto simp add: raises_only_def)
  next
    case False
    obtain e1 s1 tr1 where body: "loop_body s tr = (e1, s1, tr1)"
      by (cases "loop_body s tr")
    note fr = loop_body_result [OF body]
    show ?thesis
    proof (cases e1)
      case None
      have "poll_loop s1 tr1 = (e, s', tr')"
        using "1.prems" False body None by (subst (asm) poll_loop.simps) simp
      from "1.IH" [OF False body [symmetric] _ _ this] None
      show ?thesis using fr by simp
    next
      case (Some x)
      then have "(e, s', tr') = (Some x, s1, tr1)"
        using "1.prems" False body by (subst (asm) poll_loop.simps) simp
      then show ?thesis using fr Some by simp
    qed
  qed
qed

text \<open>
  Claim C3, amended. For a call of \<^verbatim>\<open>poll\<close> from state 0 on which the connection
  opens and the final \<^verbatim>\<open>wait_closed()\<close> does not raise, whatever the writes and
  reads in between do: when \<^verbatim>\<open>poll\<close> returns, the state is 0, reader and writer are
  None and the connection is closed; and an exception that escapes is one raised by a
  payload decoder on an accepted reply (IndexError, ValueError, UnicodeDecodeError),
  never a fault of a write or a read. When the connection cannot be opened, the
  exception of \<^verbatim>\<open>_connect\<close> escapes.
\<close>

theorem poll_returns_closed:
  assumes "state s = 0" and "poll s tr = (e, s', tr')"
  shows "(connect_result tr = Connected \<longrightarrow> close_result tr = Closed \<longrightarrow>
            (e = None \<longrightarrow> state s' = 0 \<and> \<not> reader s' \<and> \<not> writer s' \<and> \<not> is_open tr') \<and>
            (\<forall>x. e = Some x \<longrightarrow> x \<in> {IndexError, ValueError, UnicodeDecodeError})) \<and>
         (connect_result tr = ConnectTimeout \<longrightarrow> e = Some BYDHVSTimeoutError) \<and>
         (connect_result tr = ConnectOSError \<longrightarrow> e = Some BYDHVSConnectionError)"
proof (cases "connect_result tr")
  case Connected
  let ?s2 = "s\<lparr>state := 1, current_tower := 0, state_action_list := [],
                reader := True, writer := True, state := 2\<rparr>"
  let ?tr2 = "tr\<lparr>is_open := True\<rparr>"
  obtain e3 s3 tr3 where loop: "poll_loop ?s2 ?tr2 = (e3, s3, tr3)"
    by (cases "poll_loop ?s2 ?tr2")
  from poll_loop_result [OF loop]
  have s3: "reader s3" "writer s3" "close_result tr3 = close_result tr"
      "raises_only decoder_errors e3" "e3 = None \<longrightarrow> state s3 = 0"
    by (simp_all add: link_def line_def)
  show ?thesis
  proof (cases e3)
    case None
    show ?thesis
    proof (cases "close_result tr")
      case Closed
      then have "(e, s', tr') = (None, s3\<lparr>reader := False, writer := False, state := 0\<rparr>,
                   tr3\<lparr>is_open := False\<rparr>)"
        using assms Connected loop s3 None
        by (simp add: poll_def connect_def close_def)
      then show ?thesis using Connected by simp
    next
      case CloseError
      then show ?thesis using Connected by simp
    qed
  next
    case (Some x)
    then have "(e, s', tr') = (Some x, s3, tr3)"
      using assms Connected loop by (simp add: poll_def connect_def)
    then show ?thesis
      using Connected s3(4) Some by (simp add: raises_only_def decoder_errors_def)
  qed
next
  case ConnectTimeout
  then show ?thesis using assms by (auto simp add: poll_def connect_def)
next
  case ConnectOSError
  then show ?thesis using assms by (auto simp add: poll_def connect_def)
qed

theorem poll_returns_closed_witness:
  "state init_bydhvs = 0 \<and> connect_result idle_transport = Connected \<and>
   close_result idle_transport = Closed \<and>
   fst (poll init_bydhvs idle_transport) = None \<and>
   state (fst (snd (poll init_bydhvs idle_transport))) = 0 \<and>
   \<not> reader (fst (snd (poll init_bydhvs idle_transport))) \<and>
   \<not> writer (fst (snd (poll init_bydhvs idle_transport))) \<and>
   \<not> is_open (snd (snd (poll init_bydhvs idle_transport)))"
proof -
  have run: "fst (poll init_bydhvs idle_transport) = None"
    by (simp add: poll_def connect_def close_def poll_loop.simps loop_body_def
          state_action_def state2_send_request0_def request_reply_def send_request_def
          receive_response_def init_bydhvs_def idle_transport_def)
  have st: "state init_bydhvs = 0"
    by (simp add: init_bydhvs_def)
  have co: "connect_result idle_transport = Connected" "close_result idle_transport = Closed"
    by (simp_all add: idle_transport_def)
  have eq: "poll init_bydhvs idle_transport =
      (fst (poll init_bydhvs idle_transport), fst (snd (poll init_bydhvs idle_transport)),
       snd (snd (poll init_bydhvs idle_transport)))"
    by simp
  show ?thesis
    using poll_returns_closed [OF st eq] run st co by simp
qed

text \<open>
  Where the connection was lost with an exception that \<^verbatim>\<open>_receive_response\<close> caught,
  \<^verbatim>\<open>wait_closed()\<close> raises it again: it escapes \<^verbatim>\<open>poll\<close>, and reader and writer
  stay set.
\<close>

lemma close_fault_after_reset:
  "fst (poll init_bydhvs
          (idle_transport\<lparr>recvs := (\<lambda>n. RecvError), close_result := CloseError\<rparr>)) =
     Some OSError \<and>
   fst (snd (poll init_bydhvs
          (idle_transport\<lparr>recvs := (\<lambda>n. RecvError), close_result := CloseError\<rparr>))) =
     init_bydhvs\<lparr>reader := True, writer := True, state_action_list := [2]\<rparr>"
  by (simp add: poll_def connect_def close_def poll_loop.simps loop_body_def
        state_action_def state2_send_request0_def request_reply_def send_request_def
        receive_response_def init_bydhvs_def idle_transport_def)

section \<open>An abstraction of the cycle\<close>

text \<open>
  The attributes the control flow of a cycle depends on, and the two reading lists of
  every tower.
\<close>

record summary =
  s_state :: nat
  s_trace :: "nat list"
  s_reader :: bool
  s_writer :: bool
  s_tower :: nat
  s_towers :: nat
  s_modules :: nat
  s_hint :: string
  s_num_cells :: nat
  s_num_temps :: nat
  s_cells :: "(int list \<times> nat list) list"

definition summary_of :: "bydhvs \<Rightarrow> summary" where
  "summary_of s =
     \<lparr> s_state = state s, s_trace = state_action_list s,
       s_reader = reader s, s_writer = writer s, s_tower = current_tower s,
       s_towers = hvs_towers s, s_modules = hvs_modules s,
       s_hint = hvs_batt_type_from_serial s,
       s_num_cells = hvs_num_cells s, s_num_temps = hvs_num_temps s,
       s_cells = map (\<lambda>t. (t_cell_voltages t, t_cell_temperatures t)) (tower_attributes s) \<rparr>"

text \<open>Cells and temperatures per module, as \<^verbatim>\<open>_parse_packet2\<close> resolves them.\<close>

definition module_counts :: "string \<Rightarrow> nat \<Rightarrow> nat \<times> nat" where
  "module_counts hint batt_type =
     (if hint = ''LVS'' then (8, 4)
      else case batt_type_map batt_type of None \<Rightarrow> (0, 0) | Some (name, c, t) \<Rightarrow> (c, t))"

definition abs_next_tower :: "summary \<Rightarrow> summary" where
  "abs_next_tower v =
     (if s_tower v + 1 < s_towers v then v\<lparr>s_tower := s_tower v + 1, s_state := 5\<rparr>
      else v\<lparr>s_state := 0\<rparr>)"

text \<open>Appending voltages, or temperatures, to the lists of tower \<open>n\<close>.\<close>

definition add_volts :: "nat \<Rightarrow> int list \<Rightarrow> summary \<Rightarrow> summary" where
  "add_volts n xs v =
     v\<lparr>s_cells := (s_cells v)[n := (fst (s_cells v ! n) @ xs, snd (s_cells v ! n))]\<rparr>"

definition add_temps :: "nat \<Rightarrow> nat list \<Rightarrow> summary \<Rightarrow> summary" where
  "add_temps n xs v =
     v\<lparr>s_cells := (s_cells v)[n := (fst (s_cells v ! n), snd (s_cells v ! n) @ xs)]\<rparr>"

definition set_volts :: "nat \<Rightarrow> int list \<Rightarrow> summary \<Rightarrow> summary" where
  "set_volts n xs v = v\<lparr>s_cells := (s_cells v)[n := (xs, snd (s_cells v ! n))]\<rparr>"

definition set_temps :: "nat \<Rightarrow> nat list \<Rightarrow> summary \<Rightarrow> summary" where
  "set_temps n xs v = v\<lparr>s_cells := (s_cells v)[n := (fst (s_cells v ! n), xs)]\<rparr>"

text \<open>
  What one turn of the loop does to the summary when the reply \<open>d\<close> of the state is
  accepted and its decoder returns.
\<close>

definition abs_step :: "byte list \<Rightarrow> summary \<Rightarrow> summary" where
  "abs_step d v0 =
     (let v = v0\<lparr>s_trace := s_trace v0 @ [s_state v0]\<rparr>; n = s_tower v in
      if s_state v = 2 then
        v\<lparr>s_towers := unat (d ! 36) div 16,
          s_modules := unat (d ! 36) mod 16,
          s_hint := (if unat (d ! 5) = 51 then ''HVS''
                     else if unat (d ! 5) = 49 \<or> unat (d ! 5) = 50 then ''LVS''
                     else s_hint v),
          s_cells := replicate
            (if unat (d ! 36) div 16 \<noteq> 0 then unat (d ! 36) div 16 else 1) ([], []),
          s_state := 3\<rparr>
      else if s_state v = 3 then v\<lparr>s_state := 4\<rparr>
      else if s_state v = 4 then
        (let c = min (s_modules v * fst (module_counts (s_hint v) (unat (d ! 5)))) MAX_CELLS;
             t = min (s_modules v * snd (module_counts (s_hint v) (unat (d ! 5)))) MAX_TEMPS
         in v\<lparr>s_num_cells := c, s_num_temps := t,
              s_state := (if 0 < c \<and> 0 < t then 5 else 0)\<rparr>)
      else if s_state v = 5 then v\<lparr>s_state := 6\<rparr>
      else if s_state v = 6 then v\<lparr>s_state := 7\<rparr>
      else if s_state v = 7 then (set_volts n (cell_block d 101 16) v)\<lparr>s_state := 8\<rparr>
      else if s_state v = 8 then
        (add_volts n (cell_block d 5 (min (int (s_num_cells v) - 16) 64)) v)\<lparr>s_state := 9\<rparr>
      else if s_state v = 9 then
        (set_temps n (map unat (py_slice d 103 (103 + min (int (s_num_temps v)) 30)))
           (add_volts n (cell_block d 5 (min (int (s_num_cells v) - 80) 48)) v))
        \<lparr>s_state := 10\<rparr>
      else if s_state v = 10 then
        (let v' = add_temps n
                    (map unat (py_slice d 5 (5 + min (int (s_num_temps v) - 30) 34))) v
         in if 128 < s_num_cells v then v'\<lparr>s_state := 11\<rparr> else abs_next_tower v')
      else if s_state v = 11 then v\<lparr>s_state := 12\<rparr>
      else if s_state v = 12 then v\<lparr>s_state := 13\<rparr>
      else if s_state v = 13 then v\<lparr>s_state := 14\<rparr>
      else if s_state v = 14 then (add_volts n (cell_block d 101 16) v)\<lparr>s_state := 15\<rparr>
      else if s_state v = 15 then
        abs_next_tower (add_volts n (cell_block d 5 (min (int (s_num_cells v) - 144) 16)) v)
      else v\<lparr>s_state := 0\<rparr>)"

text \<open>When the decoder of the state returns on the reply \<open>d\<close>.\<close>

definition decodable :: "byte list \<Rightarrow> summary \<Rightarrow> bool" where
  "decodable d v =
     (if s_state v = 2 then
        39 \<le> length d \<and> list_all (\<lambda>b. unat b < 128) (py_slice d 3 22)
      else if s_state v = 3 then 45 \<le> length d
      else if s_state v = 4 then 6 \<le> length d
      else if s_state v = 7 then 61 \<le> length d \<and> s_tower v < length (s_cells v)
      else if s_state v = 8 \<or> s_state v = 9 \<or> s_state v = 10 \<or> s_state v = 14
              \<or> s_state v = 15
        then s_tower v < length (s_cells v)
      else 2 \<le> s_state v \<and> s_state v \<le> 15)"

section \<open>The decoders on replies they can decode\<close>

lemma attempt_Inr: "attempt (Inr x) s k = k x"
  by (simp add: attempt_def)

lemma attempt_Inl: "attempt (Inl e) s k = (Some e, s)"
  by (simp add: attempt_def)

lemma attempt_weak_cong: "m = m' \<Longrightarrow> s = s' \<Longrightarrow> attempt m s k = attempt m' s' k"
  by simp

lemma hex_eq_Nil [simp]: "hex bs = [] \<longleftrightarrow> bs = []"
  by (cases bs) (simp_all add: hex_def)

lemma py_slice_nonempty:
  "0 \<le> lo \<Longrightarrow> lo < hi \<Longrightarrow> nat lo < length xs \<Longrightarrow> py_slice xs lo hi \<noteq> []"
  by (auto simp add: py_slice_def slice_index_def Let_def)

lemma buf2int32_us_Inr:
  "pos + 4 \<le> length d \<Longrightarrow> \<exists>c. buf2int32_us d pos = Inr c"
  by (simp add: buf2int32_us_def getitem_def bind_err_def)

lemmas run_decoder =
  attempt_Inr attempt_Inl getitem_def Let_def get_tower_def upd_tower_def summary_of_def
  py_truediv_def int_truediv_def quotient_is_zero_def

lemma parse_packet0_ok:
  assumes "39 \<le> length d" and "list_all (\<lambda>b. unat b < 128) (py_slice d 3 22)"
  shows "fst (parse_packet0 d s) = None"
    and "summary_of (snd (parse_packet0 d s)) =
           (summary_of s)\<lparr>
             s_towers := unat (d ! 36) div 16,
             s_modules := unat (d ! 36) mod 16,
             s_hint := (if unat (d ! 5) = 51 then ''HVS''
                        else if unat (d ! 5) = 49 \<or> unat (d ! 5) = 50 then ''LVS''
                        else s_hint (summary_of s))\<rparr>"
    and "tower_attributes (snd (parse_packet0 d s)) = tower_attributes s"
    and "hvs_towers (snd (parse_packet0 d s)) = unat (d ! 36) div 16"
  using assms
  by (simp_all add: parse_packet0_def run_decoder decode_ascii_def
        cong: let_weak_cong attempt_weak_cong)

lemma parse_packet1_ok:
  assumes "45 \<le> length d"
  shows "fst (parse_packet1 d s) = None"
    and "summary_of (snd (parse_packet1 d s)) = summary_of s"
proof -
  obtain charge discharge
    where c: "buf2int32_us d 37 = Inr charge" "buf2int32_us d 41 = Inr discharge"
    using assms buf2int32_us_Inr [of 37 d] buf2int32_us_Inr [of 41 d] by auto
  show "fst (parse_packet1 d s) = None"
    and "summary_of (snd (parse_packet1 d s)) = summary_of s"
    using assms c
    by (simp_all add: parse_packet1_def run_decoder
          cong: let_weak_cong attempt_weak_cong)
qed

lemma parse_packet2_ok:
  assumes "6 \<le> length d"
  shows "fst (parse_packet2 d s) = None"
    and "summary_of (snd (parse_packet2 d s)) =
           (summary_of s)\<lparr>
             s_num_cells :=
               min (s_modules (summary_of s)
                      * fst (module_counts (s_hint (summary_of s)) (unat (d ! 5))))
                 MAX_CELLS,
             s_num_temps :=
               min (s_modules (summary_of s)
                      * snd (module_counts (s_hint (summary_of s)) (unat (d ! 5))))
                 MAX_TEMPS\<rparr>"
  using assms
  by (simp_all add: parse_packet2_def run_decoder module_counts_def
        split: option.splits prod.splits
        cong: let_weak_cong attempt_weak_cong)

lemma parse_packet5_ok:
  assumes "n < length (s_cells (summary_of s))" and "61 \<le> length d"
  shows "fst (parse_packet5 d n s) = None"
    and "summary_of (snd (parse_packet5 d n s)) =
           set_volts n (cell_block d 101 16) (summary_of s)"
proof -
  obtain charge discharge
    where c: "buf2int32_us d 33 = Inr charge" "buf2int32_us d 37 = Inr discharge"
    using assms buf2int32_us_Inr [of 33 d] buf2int32_us_Inr [of 37 d] by auto
  have h: "py_slice d 17 33 \<noteq> []"
    using assms by (intro py_slice_nonempty) simp_all
  show "fst (parse_packet5 d n s) = None"
    and "summary_of (snd (parse_packet5 d n s)) =
           set_volts n (cell_block d 101 16) (summary_of s)"
    using assms c h
    by (simp_all add: parse_packet5_def run_decoder int_of_hex_def map_update set_volts_def
          cong: let_weak_cong attempt_weak_cong)
qed

lemma parse_packet6_ok:
  assumes "n < length (s_cells (summary_of s))"
  shows "fst (parse_packet6 d n s) = None"
    and "summary_of (snd (parse_packet6 d n s)) =
           add_volts n (cell_block d 5 (min (int (s_num_cells (summary_of s)) - 16) 64))
             (summary_of s)"
  using assms
  by (simp_all add: parse_packet6_def run_decoder map_update add_volts_def
        cong: let_weak_cong attempt_weak_cong)

lemma parse_packet7_ok:
  assumes "n < length (s_cells (summary_of s))"
  shows "fst (parse_packet7 d n s) = None"
    and "summary_of (snd (parse_packet7 d n s)) =
           set_temps n
             (map unat (py_slice d 103 (103 + min (int (s_num_temps (summary_of s))) 30)))
             (add_volts n (cell_block d 5 (min (int (s_num_cells (summary_of s)) - 80) 48))
                (summary_of s))"
  using assms
  by (simp_all add: parse_packet7_def run_decoder map_update add_volts_def set_temps_def
        cong: let_weak_cong attempt_weak_cong)

lemma parse_packet8_ok:
  assumes "n < length (s_cells (summary_of s))"
  shows "fst (parse_packet8 d n s) = None"
    and "summary_of (snd (parse_packet8 d n s)) =
           add_temps n
             (map unat (py_slice d 5 (5 + min (int (s_num_temps (summary_of s)) - 30) 34)))
             (summary_of s)"
  using assms
  by (simp_all add: parse_packet8_def run_decoder map_update add_temps_def
        cong: let_weak_cong attempt_weak_cong)

lemma parse_packet12_ok:
  assumes "n < length (s_cells (summary_of s))"
  shows "fst (parse_packet12 d n s) = None"
    and "summary_of (snd (parse_packet12 d n s)) =
           add_volts n (cell_block d 101 16) (summary_of s)"
  using assms
  by (simp_all add: parse_packet12_def run_decoder map_update add_volts_def
        cong: let_weak_cong attempt_weak_cong)

lemma parse_packet13_ok:
  assumes "n < length (s_cells (summary_of s))"
  shows "fst (parse_packet13 d n s) = None"
    and "summary_of (snd (parse_packet13 d n s)) =
           add_volts n (cell_block d 5 (min (int (s_num_cells (summary_of s)) - 144) 16))
             (summary_of s)"
  using assms
  by (simp_all add: parse_packet13_def run_decoder map_update add_volts_def
        cong: let_weak_cong attempt_weak_cong)

section \<open>The loop follows the abstraction\<close>

lemma summary_sel [simp]:
  "s_state (summary_of s) = state s"
  "s_trace (summary_of s) = state_action_list s"
  "s_reader (summary_of s) = reader s"
  "s_writer (summary_of s) = writer s"
  "s_tower (summary_of s) = current_tower s"
  "s_towers (summary_of s) = hvs_towers s"
  "s_modules (summary_of s) = hvs_modules s"
  "s_hint (summary_of s) = hvs_batt_type_from_serial s"
  "s_num_cells (summary_of s) = hvs_num_cells s"
  "s_num_temps (summary_of s) = hvs_num_temps s"
  "length (s_cells (summary_of s)) = length (tower_attributes s)"
  by (simp_all add: summary_of_def)

lemma summary_of_upd [simp]:
  "summary_of (s\<lparr>state := v\<rparr>) = (summary_of s)\<lparr>s_state := v\<rparr>"
  "summary_of (s\<lparr>state_action_list := l\<rparr>) = (summary_of s)\<lparr>s_trace := l\<rparr>"
  "summary_of (s\<lparr>current_tower := c\<rparr>) = (summary_of s)\<lparr>s_tower := c\<rparr>"
  "summary_of (s\<lparr>reader := b\<rparr>) = (summary_of s)\<lparr>s_reader := b\<rparr>"
  "summary_of (s\<lparr>writer := b\<rparr>) = (summary_of s)\<lparr>s_writer := b\<rparr>"
  "summary_of (s\<lparr>tower_attributes := ts\<rparr>) =
     (summary_of s)\<lparr>s_cells := map (\<lambda>t. (t_cell_voltages t, t_cell_temperatures t)) ts\<rparr>"
  by (simp_all add: summary_of_def)

lemma summary_of_next_tower [simp]:
  "summary_of (next_tower s) = abs_next_tower (summary_of s)"
  by (simp add: next_tower_def abs_next_tower_def)

lemma summary_fields:
  assumes "summary_of x = w"
  shows "hvs_num_cells x = s_num_cells w" and "hvs_num_temps x = s_num_temps w"
    and "hvs_towers x = s_towers w" and "current_tower x = s_tower w"
  using assms by (auto simp add: summary_of_def)

lemmas parse_packet2_fields = summary_fields [OF parse_packet2_ok(2)]
lemmas parse_packet8_fields = summary_fields [OF parse_packet8_ok(2)]

lemma modulo_stateD: "s1\<lparr>state := 0\<rparr> = s\<lparr>state := 0\<rparr> \<Longrightarrow> s1 = s\<lparr>state := state s1\<rparr>"
proof -
  assume eq: "s1\<lparr>state := 0\<rparr> = s\<lparr>state := 0\<rparr>"
  have "s1\<lparr>state := 0\<rparr>\<lparr>state := state s1\<rparr> = s\<lparr>state := 0\<rparr>\<lparr>state := state s1\<rparr>"
    by (simp only: eq)
  then show ?thesis by simp
qed

lemma send_request_streams:
  "send_request r s tr = (s1, tr1) \<Longrightarrow> recvs tr1 = recvs tr \<and> is_open tr1 = is_open tr"
  by (auto simp add: send_request_def Let_def split: if_splits send_result.splits)

lemma request_reply_accepted:
  assumes "reader s" and "recvs tr 0 = Data d" and "accepted (Some d)"
  shows "\<exists>v tr'. recvs tr' = (\<lambda>n. recvs tr (Suc n)) \<and> is_open tr' = is_open tr \<and>
           request_reply req f s tr =
             (fst (f d (s\<lparr>state := v\<rparr>)), snd (f d (s\<lparr>state := v\<rparr>)), tr')"
proof -
  obtain s1 tr1 where snd: "(case req of None \<Rightarrow> (s, tr) | Some r \<Rightarrow> send_request r s tr) = (s1, tr1)"
    by (cases "case req of None \<Rightarrow> (s, tr) | Some r \<Rightarrow> send_request r s tr")
  have "s1\<lparr>state := 0\<rparr> = s\<lparr>state := 0\<rparr>"
    using snd send_request_cases by (cases req) auto
  then have s1: "s1 = s\<lparr>state := state s1\<rparr>"
    by (rule modulo_stateD)
  have tr1: "recvs tr1 = recvs tr" "is_open tr1 = is_open tr"
    using snd send_request_streams by (cases req; auto)+
  have "reader s1"
    using s1 assms(1) by (metis bydhvs.select_convs(1) bydhvs.surjective bydhvs.update_convs(3))
  then have rcv: "receive_response s1 tr1 = (Some d, s1, tr1\<lparr>recvs := (\<lambda>n. recvs tr1 (Suc n))\<rparr>)"
    using assms(2) tr1 by (simp add: receive_response_def)
  have "request_reply req f s tr =
          (fst (f d s1), snd (f d s1), tr1\<lparr>recvs := (\<lambda>n. recvs tr1 (Suc n))\<rparr>)"
    using snd rcv assms(3) by (simp add: request_reply_def split: prod.splits)
  then have "request_reply req f s tr =
          (fst (f d (s\<lparr>state := state s1\<rparr>)), snd (f d (s\<lparr>state := state s1\<rparr>)),
           tr1\<lparr>recvs := (\<lambda>n. recvs tr1 (Suc n))\<rparr>)"
    using s1 by simp
  then show ?thesis
    using tr1 by (intro exI [of _ "state s1"] exI [of _ "tr1\<lparr>recvs := (\<lambda>n. recvs tr1 (Suc n))\<rparr>"]) simp
qed

lemma decode_step_ok:
  assumes acc: "reader s" "recvs tr 0 = Data d" "accepted (Some d)"
      and ok: "\<And>v. fst (P d (s\<lparr>state := v\<rparr>)) = None"
      and eff: "\<And>v. summary_of (g (snd (P d (s\<lparr>state := v\<rparr>)))) = w"
  shows "\<exists>s' tr'. request_reply req (\<lambda>d s. and_then (P d s) g) s tr = (None, s', tr') \<and>
           summary_of s' = w \<and> recvs tr' = (\<lambda>n. recvs tr (Suc n)) \<and>
           is_open tr' = is_open tr"
proof -
  from request_reply_accepted [OF acc, of req "\<lambda>d s. and_then (P d s) g"]
  obtain v tr' where tr': "recvs tr' = (\<lambda>n. recvs tr (Suc n))" "is_open tr' = is_open tr"
    and run: "request_reply req (\<lambda>d s. and_then (P d s) g) s tr =
       (fst (and_then (P d (s\<lparr>state := v\<rparr>)) g), snd (and_then (P d (s\<lparr>state := v\<rparr>)) g), tr')"
    by blast
  have "and_then (P d (s\<lparr>state := v\<rparr>)) g = (None, g (snd (P d (s\<lparr>state := v\<rparr>))))"
    using ok [of v] by (cases "P d (s\<lparr>state := v\<rparr>)") (simp add: and_then_def)
  then show ?thesis
    using run tr' eff [of v] by simp
qed

lemma plain_step_ok:
  assumes acc: "reader s" "recvs tr 0 = Data d" "accepted (Some d)"
      and eff: "\<And>v. summary_of (g (s\<lparr>state := v\<rparr>)) = w"
  shows "\<exists>s' tr'. request_reply req (\<lambda>d s. (None, g s)) s tr = (None, s', tr') \<and>
           summary_of s' = w \<and> recvs tr' = (\<lambda>n. recvs tr (Suc n)) \<and>
           is_open tr' = is_open tr"
proof -
  from request_reply_accepted [OF acc, of req "\<lambda>d s. (None, g s)"]
  obtain v tr' where tr': "recvs tr' = (\<lambda>n. recvs tr (Suc n))" "is_open tr' = is_open tr"
    and run: "request_reply req (\<lambda>d s. (None, g s)) s tr = (None, g (s\<lparr>state := v\<rparr>), tr')"
    by auto
  then show ?thesis
    using eff [of v] by simp
qed

lemma state_cases:
  fixes st :: nat
  assumes "2 \<le> st" and "st \<le> 15"
  shows "st = 2 \<or> st = 3 \<or> st = 4 \<or> st = 5 \<or> st = 6 \<or> st = 7 \<or> st = 8 \<or>
    st = 9 \<or> st = 10 \<or> st = 11 \<or> st = 12 \<or> st = 13 \<or> st = 14 \<or> st = 15"
  using assms by presburger

lemma decodable_range: "decodable d v \<Longrightarrow> 2 \<le> s_state v \<and> s_state v \<le> 15"
  by (auto simp add: decodable_def split: if_splits)

lemma state_action_at:
  "state s = 2 \<Longrightarrow> state_action s tr = state2_send_request0 s tr"
  "state s = 3 \<Longrightarrow> state_action s tr = state3_send_request1 s tr"
  "state s = 4 \<Longrightarrow> state_action s tr = state4_send_request2 s tr"
  "state s = 5 \<Longrightarrow> state_action s tr = state5_start_measurement s tr"
  "state s = 6 \<Longrightarrow> state_action s tr = state6_send_request4 s tr"
  "state s = 7 \<Longrightarrow> state_action s tr = state7_send_request5 s tr"
  "state s = 8 \<Longrightarrow> state_action s tr = state8_send_request6 s tr"
  "state s = 9 \<Longrightarrow> state_action s tr = state9_send_request7 s tr"
  "state s = 10 \<Longrightarrow> state_action s tr = state10_send_request8 s tr"
  "state s = 11 \<Longrightarrow> state_action s tr = state11_send_request9 s tr"
  "state s = 12 \<Longrightarrow> state_action s tr = state12_send_request10 s tr"
  "state s = 13 \<Longrightarrow> state_action s tr = state13_send_request11 s tr"
  "state s = 14 \<Longrightarrow> state_action s tr = state14_send_request12 s tr"
  "state s = 15 \<Longrightarrow> state_action s tr = state15_send_request13 s tr"
  by (simp_all add: state_action_def)

lemma loop_body_simulates:
  assumes acc: "reader s" "recvs tr 0 = Data d" "accepted (Some d)"
      and dec: "decodable d (summary_of s)"
  shows "\<exists>s' tr'. loop_body s tr = (None, s', tr') \<and>
           summary_of s' = abs_step d (summary_of s) \<and>
           recvs tr' = (\<lambda>n. recvs tr (Suc n)) \<and> is_open tr' = is_open tr"
proof -
  let ?s = "s\<lparr>state_action_list := state_action_list s @ [state s]\<rparr>"
  have acc': "reader ?s" "recvs tr 0 = Data d" "accepted (Some d)"
    using acc by simp_all
  have body: "loop_body s tr = state_action ?s tr"
    by (simp add: loop_body_def)
  from decodable_range [OF dec] have "2 \<le> state s" "state s \<le> 15"
    by simp_all
  from state_cases [OF this] show ?thesis
  proof (elim disjE)
    assume k: "state s = 2"
    have "state_action ?s tr = state2_send_request0 ?s tr"
      using k by (simp add: state_action_at)
    moreover have "\<exists>s' tr'. state2_send_request0 ?s tr = (None, s', tr') \<and>
           summary_of s' = abs_step d (summary_of s) \<and>
           recvs tr' = (\<lambda>n. recvs tr (Suc n)) \<and> is_open tr' = is_open tr"
      unfolding state2_send_request0_def
      by (rule decode_step_ok [OF acc'])
         (use k dec in \<open>simp_all add: parse_packet0_ok new_tower_def abs_step_def decodable_def Let_def
            add_volts_def add_temps_def set_volts_def set_temps_def\<close>)
    ultimately show ?thesis
      by (simp add: body)
  next
    assume k: "state s = 3"
    have "state_action ?s tr = state3_send_request1 ?s tr"
      using k by (simp add: state_action_at)
    moreover have "\<exists>s' tr'. state3_send_request1 ?s tr = (None, s', tr') \<and>
           summary_of s' = abs_step d (summary_of s) \<and>
           recvs tr' = (\<lambda>n. recvs tr (Suc n)) \<and> is_open tr' = is_open tr"
      unfolding state3_send_request1_def
      by (rule decode_step_ok [OF acc'])
         (use k dec in \<open>simp_all add: parse_packet1_ok abs_step_def decodable_def Let_def
            add_volts_def add_temps_def set_volts_def set_temps_def\<close>)
    ultimately show ?thesis
      by (simp add: body)
  next
    assume k: "state s = 4"
    have "state_action ?s tr = state4_send_request2 ?s tr"
      using k by (simp add: state_action_at)
    moreover have "\<exists>s' tr'. state4_send_request2 ?s tr = (None, s', tr') \<and>
           summary_of s' = abs_step d (summary_of s) \<and>
           recvs tr' = (\<lambda>n. recvs tr (Suc n)) \<and> is_open tr' = is_open tr"
      unfolding state4_send_request2_def
      by (rule decode_step_ok [OF acc'])
         (use k dec in \<open>simp_all add: parse_packet2_ok parse_packet2_fields abs_step_def decodable_def Let_def
            add_volts_def add_temps_def set_volts_def set_temps_def\<close>)
    ultimately show ?thesis
      by (simp add: body)
  next
    assume k: "state s = 5"
    have "state_action ?s tr = state5_start_measurement ?s tr"
      using k by (simp add: state_action_at)
    moreover have "\<exists>s' tr'. state5_start_measurement ?s tr = (None, s', tr') \<and>
           summary_of s' = abs_step d (summary_of s) \<and>
           recvs tr' = (\<lambda>n. recvs tr (Suc n)) \<and> is_open tr' = is_open tr"
      unfolding state5_start_measurement_def
      by (rule plain_step_ok [OF acc'])
         (use k dec in \<open>simp_all add: abs_step_def decodable_def Let_def\<close>)
    ultimately show ?thesis
      by (simp add: body)
  next
    assume k: "state s = 6"
    have "state_action ?s tr = state6_send_request4 ?s tr"
      using k by (simp add: state_action_at)
    moreover have "\<exists>s' tr'. state6_send_request4 ?s tr = (None, s', tr') \<and>
           summary_of s' = abs_step d (summary_of s) \<and>
           recvs tr' = (\<lambda>n. recvs tr (Suc n)) \<and> is_open tr' = is_open tr"
      unfolding state6_send_request4_def
      by (rule plain_step_ok [OF acc'])
         (use k dec in \<open>simp_all add: abs_step_def decodable_def Let_def\<close>)
    ultimately show ?thesis
      by (simp add: body)
  next
    assume k: "state s = 7"
    have "state_action ?s tr = state7_send_request5 ?s tr"
      using k by (simp add: state_action_at)
    moreover have "\<exists>s' tr'. state7_send_request5 ?s tr = (None, s', tr') \<and>
           summary_of s' = abs_step d (summary_of s) \<and>
           recvs tr' = (\<lambda>n. recvs tr (Suc n)) \<and> is_open tr' = is_open tr"
      unfolding state7_send_request5_def
      by (rule decode_step_ok [OF acc'])
         (use k dec in \<open>simp_all add: parse_packet5_ok abs_step_def decodable_def Let_def
            add_volts_def add_temps_def set_volts_def set_temps_def\<close>)
    ultimately show ?thesis
      by (simp add: body)
  next
    assume k: "state s = 8"
    have "state_action ?s tr = state8_send_request6 ?s tr"
      using k by (simp add: state_action_at)
    moreover have "\<exists>s' tr'. state8_send_request6 ?s tr = (None, s', tr') \<and>
           summary_of s' = abs_step d (summary_of s) \<and>
           recvs tr' = (\<lambda>n. recvs tr (Suc n)) \<and> is_open tr' = is_open tr"
      unfolding state8_send_request6_def
      by (rule decode_step_ok [OF acc'])
         (use k dec in \<open>simp_all add: parse_packet6_ok abs_step_def decodable_def Let_def
            add_volts_def add_temps_def set_volts_def set_temps_def\<close>)
    ultimately show ?thesis
      by (simp add: body)
  next
    assume k: "state s = 9"
    have "state_action ?s tr = state9_send_request7 ?s tr"
      using k by (simp add: state_action_at)
    moreover have "\<exists>s' tr'. state9_send_request7 ?s tr = (None, s', tr') \<and>
           summary_of s' = abs_step d (summary_of s) \<and>
           recvs tr' = (\<lambda>n. recvs tr (Suc n)) \<and> is_open tr' = is_open tr"
      unfolding state9_send_request7_def
      by (rule decode_step_ok [OF acc'])
         (use k dec in \<open>simp_all add: parse_packet7_ok abs_step_def decodable_def Let_def
            add_volts_def add_temps_def set_volts_def set_temps_def\<close>)
    ultimately show ?thesis
      by (simp add: body)
  next
    assume k: "state s = 10"
    have "state_action ?s tr = state10_send_request8 ?s tr"
      using k by (simp add: state_action_at)
    moreover have "\<exists>s' tr'. state10_send_request8 ?s tr = (None, s', tr') \<and>
           summary_of s' = abs_step d (summary_of s) \<and>
           recvs tr' = (\<lambda>n. recvs tr (Suc n)) \<and> is_open tr' = is_open tr"
      unfolding state10_send_request8_def
      by (rule decode_step_ok [OF acc'])
         (use k dec in \<open>simp_all add: parse_packet8_ok parse_packet8_fields abs_next_tower_def abs_step_def decodable_def Let_def
            add_volts_def add_temps_def set_volts_def set_temps_def\<close>)
    ultimately show ?thesis
      by (simp add: body)
  next
    assume k: "state s = 11"
    have "state_action ?s tr = state11_send_request9 ?s tr"
      using k by (simp add: state_action_at)
    moreover have "\<exists>s' tr'. state11_send_request9 ?s tr = (None, s', tr') \<and>
           summary_of s' = abs_step d (summary_of s) \<and>
           recvs tr' = (\<lambda>n. recvs tr (Suc n)) \<and> is_open tr' = is_open tr"
      unfolding state11_send_request9_def
      by (rule plain_step_ok [OF acc'])
         (use k dec in \<open>simp_all add: abs_step_def decodable_def Let_def\<close>)
    ultimately show ?thesis
      by (simp add: body)
  next
    assume k: "state s = 12"
    have "state_action ?s tr = state12_send_request10 ?s tr"
      using k by (simp add: state_action_at)
    moreover have "\<exists>s' tr'. state12_send_request10 ?s tr = (None, s', tr') \<and>
           summary_of s' = abs_step d (summary_of s) \<and>
           recvs tr' = (\<lambda>n. recvs tr (Suc n)) \<and> is_open tr' = is_open tr"
      unfolding state12_send_request10_def
      by (rule plain_step_ok [OF acc'])
         (use k dec in \<open>simp_all add: abs_step_def decodable_def Let_def\<close>)
    ultimately show ?thesis
      by (simp add: body)
  next
    assume k: "state s = 13"
    have "state_action ?s tr = state13_send_request11 ?s tr"
      using k by (simp add: state_action_at)
    moreover have "\<exists>s' tr'. state13_send_request11 ?s tr = (None, s', tr') \<and>
           summary_of s' = abs_step d (summary_of s) \<and>
           recvs tr' = (\<lambda>n. recvs tr (Suc n)) \<and> is_open tr' = is_open tr"
      unfolding state13_send_request11_def
      by (rule plain_step_ok [OF acc'])
         (use k dec in \<open>simp_all add: abs_step_def decodable_def Let_def\<close>)
    ultimately show ?thesis
      by (simp add: body)
  next
    assume k: "state s = 14"
    have "state_action ?s tr = state14_send_request12 ?s tr"
      using k by (simp add: state_action_at)
    moreover have "\<exists>s' tr'. state14_send_request12 ?s tr = (None, s', tr') \<and>
           summary_of s' = abs_step d (summary_of s) \<and>
           recvs tr' = (\<lambda>n. recvs tr (Suc n)) \<and> is_open tr' = is_open tr"
      unfolding state14_send_request12_def
      by (rule decode_step_ok [OF acc'])
         (use k dec in \<open>simp_all add: parse_packet12_ok abs_step_def decodable_def Let_def
            add_volts_def add_temps_def set_volts_def set_temps_def\<close>)
    ultimately show ?thesis
      by (simp add: body)
  next
    assume k: "state s = 15"
    have "state_action ?s tr = state15_send_request13 ?s tr"
      using k by (simp add: state_action_at)
    moreover have "\<exists>s' tr'. state15_send_request13 ?s tr = (None, s', tr') \<and>
           summary_of s' = abs_step d (summary_of s) \<and>
           recvs tr' = (\<lambda>n. recvs tr (Suc n)) \<and> is_open tr' = is_open tr"
      unfolding state15_send_request13_def
      by (rule decode_step_ok [OF acc'])
         (use k dec in \<open>simp_all add: parse_packet13_ok abs_next_tower_def abs_step_def decodable_def Let_def
            add_volts_def add_temps_def set_volts_def set_temps_def\<close>)
    ultimately show ?thesis
      by (simp add: body)
  qed
qed

section \<open>Cycles of accepted, decodable replies\<close>

text \<open>The reads to come return the replies \<open>ds\<close>, in this order.\<close>

fun feeds :: "(nat \<Rightarrow> recv_result) \<Rightarrow> byte list list \<Rightarrow> bool" where
  "feeds r [] = True"
| "feeds r (d # ds) = (r 0 = Data d \<and> feeds (\<lambda>n. r (Suc n)) ds)"

fun abs_run :: "summary \<Rightarrow> byte list list \<Rightarrow> summary" where
  "abs_run v [] = v"
| "abs_run v (d # ds) = abs_run (abs_step d v) ds"

text \<open>Every reply is accepted and decodable in the state in which it arrives.\<close>

fun run_ok :: "summary \<Rightarrow> byte list list \<Rightarrow> bool" where
  "run_ok v [] = True"
| "run_ok v (d # ds) = (accepted (Some d) \<and> decodable d v \<and> run_ok (abs_step d v) ds)"

lemma abs_step_reader [simp]: "s_reader (abs_step d v) = s_reader v"
  by (simp add: abs_step_def Let_def add_volts_def add_temps_def set_volts_def
        set_temps_def abs_next_tower_def)

lemma poll_loop_unfold:
  "state s \<noteq> 0 \<Longrightarrow> loop_body s tr = (None, s', tr') \<Longrightarrow> poll_loop s tr = poll_loop s' tr'"
  "state s \<noteq> 0 \<Longrightarrow> loop_body s tr = (Some e, s', tr') \<Longrightarrow>
     poll_loop s tr = (Some e, s', tr')"
  "state s = 0 \<Longrightarrow> poll_loop s tr = (None, s, tr)"
  by (subst poll_loop.simps, simp)+

lemma poll_loop_follows:
  assumes "reader s" and "feeds (recvs tr) ds" and "run_ok (summary_of s) ds"
  shows "\<exists>s' tr'. poll_loop s tr = poll_loop s' tr' \<and>
           summary_of s' = abs_run (summary_of s) ds \<and> line tr' = line tr \<and>
           recvs tr' = (\<lambda>n. recvs tr (n + length ds))"
  using assms
proof (induction ds arbitrary: s tr)
  case Nil
  show ?case by (intro exI [of _ s] exI [of _ tr]) simp
next
  case (Cons d ds)
  from Cons.prems have d: "recvs tr 0 = Data d" "accepted (Some d)"
      "decodable d (summary_of s)"
    and rest: "feeds (\<lambda>n. recvs tr (Suc n)) ds" "run_ok (abs_step d (summary_of s)) ds"
    by simp_all
  from loop_body_simulates [OF Cons.prems(1) d]
  obtain s1 tr1 where body: "loop_body s tr = (None, s1, tr1)"
    and s1: "summary_of s1 = abs_step d (summary_of s)"
    and tr1: "recvs tr1 = (\<lambda>n. recvs tr (Suc n))"
    by blast
  have nz: "state s \<noteq> 0"
    using decodable_range [OF d(3)] by simp
  have line1: "line tr1 = line tr"
    using loop_body_result [OF body] by simp
  have "reader s1"
    using arg_cong [OF s1, of s_reader] Cons.prems(1) by simp
  from Cons.IH [OF this, of tr1] rest s1 tr1
  obtain s' tr' where "poll_loop s1 tr1 = poll_loop s' tr'"
    "summary_of s' = abs_run (abs_step d (summary_of s)) ds" "line tr' = line tr1"
    "recvs tr' = (\<lambda>n. recvs tr1 (n + length ds))"
    by auto
  then show ?case
    using poll_loop_unfold(1) [OF nz body] line1 tr1
    by (intro exI [of _ s'] exI [of _ tr']) simp
qed

text \<open>Frames built with their checksum.\<close>

lemma check_packet_mk_frame:
  assumes "3 \<le> length p"
  shows "check_packet (mk_frame p) \<longleftrightarrow>
     unat (p ! 0) = 1 \<and>
     (unat (p ! 1) = 3 \<and> unat (p ! 2) + 3 = length p \<or> unat (p ! 1) = 16)"
proof -
  have "0 < length p" "1 < length p" "2 < length p"
    using assms by arith+
  then have n: "mk_frame p ! 0 = p ! 0" "mk_frame p ! 1 = p ! 1" "mk_frame p ! 2 = p ! 2"
    by (simp_all only: nth_mk_frame)
  have l: "length (mk_frame p) = length p + 2"
    by (rule length_mk_frame)
  show ?thesis
    unfolding check_packet_def Let_def n l CRC16_mk_frame
    using assms by auto
qed

lemma accepted_mk_frame:
  assumes "3 \<le> length p"
  shows "accepted (Some (mk_frame p)) \<longleftrightarrow>
     unat (p ! 0) = 1 \<and>
     (unat (p ! 1) = 3 \<and> unat (p ! 2) + 3 = length p \<or> unat (p ! 1) = 16)"
proof -
  have "mk_frame p \<noteq> []"
    by (simp add: mk_frame_def crc_bytes_def)
  then show ?thesis
    using check_packet_mk_frame [OF assms] by (simp add: accepted_def)
qed

text \<open>Decoders on replies that are too short.\<close>

lemma parse_packet5_short:
  assumes "length d < 10"
  shows "fst (parse_packet5 d n s) = Some IndexError"
proof (cases "n < length (tower_attributes s)")
  case True
  then show ?thesis
    using assms
    by (simp add: parse_packet5_def attempt_Inr attempt_Inl getitem_def get_tower_def Let_def
          cong: let_weak_cong attempt_weak_cong)
next
  case False
  then show ?thesis
    by (simp add: parse_packet5_def attempt_Inl get_tower_def)
qed

lemma parse_packet5_no_flags:
  assumes "n < length (tower_attributes s)" and "length d = 17"
  shows "fst (parse_packet5 d n s) = Some ValueError"
proof -
  have "py_slice d 17 33 = []"
    using assms by (simp add: py_slice_def slice_index_def)
  then show ?thesis
    using assms
    by (simp add: parse_packet5_def attempt_Inr attempt_Inl getitem_def get_tower_def Let_def
          int_of_hex_def upd_tower_def
          cong: let_weak_cong attempt_weak_cong)
qed

lemma decode_step_raises:
  assumes acc: "reader s" "recvs tr 0 = Data d" "accepted (Some d)"
      and err: "\<And>v. fst (P d (s\<lparr>state := v\<rparr>)) = Some e"
  shows "fst (request_reply req (\<lambda>d s. and_then (P d s) g) s tr) = Some e"
proof -
  from request_reply_accepted [OF acc, of req "\<lambda>d s. and_then (P d s) g"]
  obtain v tr' where
    run: "request_reply req (\<lambda>d s. and_then (P d s) g) s tr =
       (fst (and_then (P d (s\<lparr>state := v\<rparr>)) g), snd (and_then (P d (s\<lparr>state := v\<rparr>)) g), tr')"
    by blast
  have "fst (and_then (P d (s\<lparr>state := v\<rparr>)) g) = Some e"
    using err [of v] by (cases "P d (s\<lparr>state := v\<rparr>)") (simp add: and_then_def)
  then show ?thesis
    using run by simp
qed

lemma poll_loop_raises:
  "state s \<noteq> 0 \<Longrightarrow> fst (loop_body s tr) = Some e \<Longrightarrow> fst (poll_loop s tr) = Some e"
  by (cases "loop_body s tr") (simp add: poll_loop_unfold(2))

lemma state7_raises:
  assumes "state s = 7" "reader s" "recvs tr 0 = Data d" "accepted (Some d)"
    and err: "\<And>x. length (tower_attributes x) = length (tower_attributes s) \<Longrightarrow>
                fst (parse_packet5 d (current_tower s) x) = Some e"
  shows "fst (poll_loop s tr) = Some e"
proof -
  let ?s = "s\<lparr>state_action_list := state_action_list s @ [state s]\<rparr>"
  have bad: "fst (parse_packet5 d (current_tower (?s\<lparr>state := v\<rparr>)) (?s\<lparr>state := v\<rparr>)) = Some e"
    for v
    using err [of "?s\<lparr>state := v\<rparr>"] by simp
  have rd: "reader ?s"
    using assms(2) by simp
  have "fst (state7_send_request5 ?s tr) = Some e"
    unfolding state7_send_request5_def
    by (rule decode_step_raises
          [where P = "\<lambda>d s. parse_packet5 d (current_tower s) s", OF rd assms(3,4) bad])
  then have "fst (loop_body s tr) = Some e"
    using assms(1) by (simp add: loop_body_def state_action_at)
  then show ?thesis
    using assms(1) by (intro poll_loop_raises) simp_all
qed

section \<open>A cycle on one tower of two HVS modules\<close>

lemma check_packet_accepted:
  assumes "check_packet d"
  shows "accepted (Some d)"
proof -
  have "d \<noteq> []"
    using assms by (auto simp add: check_packet_def)
  then show ?thesis
    using assms by (simp add: accepted_def)
qed

lemma feeds_nth: "feeds r ds \<Longrightarrow> n < length ds \<Longrightarrow> r n = Data (ds ! n)"
proof (induction ds arbitrary: r n)
  case Nil
  then show ?case by simp
next
  case (Cons d ds)
  show ?case
  proof (cases n)
    case 0
    then show ?thesis using Cons.prems by simp
  next
    case (Suc m)
    then show ?thesis
      using Cons.IH [of "\<lambda>n. r (Suc n)" m] Cons.prems by simp
  qed
qed

lemma summary_cells_single:
  assumes "s_cells (summary_of x) = [(a, b)]"
  shows "length (tower_attributes x) = 1"
    and "t_cell_voltages (tower_attributes x ! 0) = a"
    and "t_cell_temperatures (tower_attributes x ! 0) = b"
  using assms by (cases "tower_attributes x"; simp add: summary_of_def)+

text \<open>
  The summary of a cycle from state 2 over the nine replies of a tower with at most 128
  cells, for an identity reply that declares one tower of two modules and a battery
  type 2 without the LVS hint.
\<close>

lemma abs_run_one_tower:
  assumes v: "s_state v = 2" "s_tower v = 0" "s_trace v = []"
    and ok: "accepted (Some d2)" "accepted (Some d3)" "accepted (Some d4)"
      "accepted (Some d5)" "accepted (Some d6)" "accepted (Some d7)"
      "accepted (Some d8)" "accepted (Some d9)" "accepted (Some d10)"
    and ident: "39 \<le> length d2" "list_all (\<lambda>b. unat b < 128) (py_slice d2 3 22)"
      "unat (d2 ! 36) div 16 = 1" "unat (d2 ! 36) mod 16 = 2"
    and hint: "unat (d2 ! 5) = 51 \<or>
       unat (d2 ! 5) \<noteq> 49 \<and> unat (d2 ! 5) \<noteq> 50 \<and> s_hint v \<noteq> ''LVS''"
    and rest: "45 \<le> length d3" "6 \<le> length d4" "unat (d4 ! 5) = 2" "61 \<le> length d7"
  shows "run_ok v [d2, d3, d4, d5, d6, d7, d8, d9, d10]"
    and "s_state (abs_run v [d2, d3, d4, d5, d6, d7, d8, d9, d10]) = 0"
    and "s_trace (abs_run v [d2, d3, d4, d5, d6, d7, d8, d9, d10]) =
           [2, 3, 4, 5, 6, 7, 8, 9, 10]"
    and "s_num_cells (abs_run v [d2, d3, d4, d5, d6, d7, d8, d9, d10]) = 64"
    and "s_num_temps (abs_run v [d2, d3, d4, d5, d6, d7, d8, d9, d10]) = 24"
    and "s_cells (abs_run v [d2, d3, d4, d5, d6, d7, d8, d9, d10]) =
           [(cell_block d7 101 16 @ cell_block d8 5 48 @ cell_block d9 5 (- 16),
             map unat (py_slice d9 103 127) @ map unat (py_slice d10 5 (- 1)))]"
    and "s_writer (abs_run v [d2, d3, d4, d5, d6, d7, d8, d9, d10]) = s_writer v"
proof -
  define v3 where "v3 = abs_step d2 v"
  have v3: "s_state v3 = 3" "s_tower v3 = 0" "s_trace v3 = [2]" "s_towers v3 = 1"
      "s_modules v3 = 2" "s_hint v3 \<noteq> ''LVS''" "s_cells v3 = [([], [])]"
      "s_writer v3 = s_writer v"
    using v ident hint by (auto simp add: v3_def abs_step_def Let_def)
  define v4 where "v4 = abs_step d3 v3"
  have v4: "s_state v4 = 4" "s_tower v4 = 0" "s_trace v4 = [2, 3]" "s_towers v4 = 1"
      "s_modules v4 = 2" "s_hint v4 \<noteq> ''LVS''" "s_cells v4 = [([], [])]"
      "s_writer v4 = s_writer v"
    using v3 by (simp_all add: v4_def abs_step_def Let_def)
  define v5 where "v5 = abs_step d4 v4"
  have v5: "s_state v5 = 5" "s_tower v5 = 0" "s_trace v5 = [2, 3, 4]" "s_towers v5 = 1"
      "s_num_cells v5 = 64" "s_num_temps v5 = 24" "s_cells v5 = [([], [])]"
      "s_writer v5 = s_writer v"
    using v4 rest
    by (simp_all add: v5_def abs_step_def Let_def module_counts_def batt_type_map_def
          MAX_CELLS_def MAX_TEMPS_def)
  define v6 where "v6 = abs_step d5 v5"
  have v6: "s_state v6 = 6" "s_tower v6 = 0" "s_trace v6 = [2, 3, 4, 5]" "s_towers v6 = 1"
      "s_num_cells v6 = 64" "s_num_temps v6 = 24" "s_cells v6 = [([], [])]"
      "s_writer v6 = s_writer v"
    using v5 by (simp_all add: v6_def abs_step_def Let_def)
  define v7 where "v7 = abs_step d6 v6"
  have v7: "s_state v7 = 7" "s_tower v7 = 0" "s_trace v7 = [2, 3, 4, 5, 6]"
      "s_towers v7 = 1" "s_num_cells v7 = 64" "s_num_temps v7 = 24"
      "s_cells v7 = [([], [])]" "s_writer v7 = s_writer v"
    using v6 by (simp_all add: v7_def abs_step_def Let_def)
  define v8 where "v8 = abs_step d7 v7"
  have v8: "s_state v8 = 8" "s_tower v8 = 0" "s_trace v8 = [2, 3, 4, 5, 6, 7]"
      "s_towers v8 = 1" "s_num_cells v8 = 64" "s_num_temps v8 = 24"
      "s_cells v8 = [(cell_block d7 101 16, [])]" "s_writer v8 = s_writer v"
    using v7 by (simp_all add: v8_def abs_step_def Let_def set_volts_def)
  define v9 where "v9 = abs_step d8 v8"
  have v9: "s_state v9 = 9" "s_tower v9 = 0" "s_trace v9 = [2, 3, 4, 5, 6, 7, 8]"
      "s_towers v9 = 1" "s_num_cells v9 = 64" "s_num_temps v9 = 24"
      "s_cells v9 = [(cell_block d7 101 16 @ cell_block d8 5 48, [])]"
      "s_writer v9 = s_writer v"
    using v8 by (simp_all add: v9_def abs_step_def Let_def add_volts_def)
  define v10 where "v10 = abs_step d9 v9"
  have v10: "s_state v10 = 10" "s_tower v10 = 0" "s_trace v10 = [2, 3, 4, 5, 6, 7, 8, 9]"
      "s_towers v10 = 1" "s_num_cells v10 = 64" "s_num_temps v10 = 24"
      "s_cells v10 =
         [(cell_block d7 101 16 @ cell_block d8 5 48 @ cell_block d9 5 (- 16),
           map unat (py_slice d9 103 127))]"
      "s_writer v10 = s_writer v"
    using v9 by (simp_all add: v10_def abs_step_def Let_def add_volts_def set_temps_def)
  define v11 where "v11 = abs_step d10 v10"
  have v11: "s_state v11 = 0" "s_trace v11 = [2, 3, 4, 5, 6, 7, 8, 9, 10]"
      "s_num_cells v11 = 64" "s_num_temps v11 = 24"
      "s_cells v11 =
         [(cell_block d7 101 16 @ cell_block d8 5 48 @ cell_block d9 5 (- 16),
           map unat (py_slice d9 103 127) @ map unat (py_slice d10 5 (- 1)))]"
      "s_writer v11 = s_writer v"
    using v10
    by (simp_all add: v11_def abs_step_def Let_def add_temps_def abs_next_tower_def)
  have run: "abs_run v [d2, d3, d4, d5, d6, d7, d8, d9, d10] = v11"
    by (simp add: v3_def v4_def v5_def v6_def v7_def v8_def v9_def v10_def v11_def)
  show "run_ok v [d2, d3, d4, d5, d6, d7, d8, d9, d10]"
    using ok ident rest v v3 v4 v5 v6 v7 v8 v9 v10
    by (simp add: decodable_def
          v3_def [symmetric] v4_def [symmetric] v5_def [symmetric] v6_def [symmetric]
          v7_def [symmetric] v8_def [symmetric] v9_def [symmetric] v10_def [symmetric])
  show "s_state (abs_run v [d2, d3, d4, d5, d6, d7, d8, d9, d10]) = 0"
    and "s_trace (abs_run v [d2, d3, d4, d5, d6, d7, d8, d9, d10]) =
           [2, 3, 4, 5, 6, 7, 8, 9, 10]"
    and "s_num_cells (abs_run v [d2, d3, d4, d5, d6, d7, d8, d9, d10]) = 64"
    and "s_num_temps (abs_run v [d2, d3, d4, d5, d6, d7, d8, d9, d10]) = 24"
    and "s_cells (abs_run v [d2, d3, d4, d5, d6, d7, d8, d9, d10]) =
           [(cell_block d7 101 16 @ cell_block d8 5 48 @ cell_block d9 5 (- 16),
             map unat (py_slice d9 103 127) @ map unat (py_slice d10 5 (- 1)))]"
    and "s_writer (abs_run v [d2, d3, d4, d5, d6, d7, d8, d9, d10]) = s_writer v"
    unfolding run using v11 by simp_all
qed

text \<open>The cycle as \<^verbatim>\<open>poll\<close> runs it.\<close>

lemma poll_one_tower:
  assumes st: "state s = 0"
    and tr: "connect_result tr = Connected" "close_result tr = Closed"
    and fd: "feeds (recvs tr) [d2, d3, d4, d5, d6, d7, d8, d9, d10]"
    and ok: "check_packet d2" "check_packet d3" "check_packet d4" "check_packet d5"
      "check_packet d6" "check_packet d7" "check_packet d8" "check_packet d9"
      "check_packet d10"
    and ident: "39 \<le> length d2" "list_all (\<lambda>b. unat b < 128) (py_slice d2 3 22)"
      "unat (d2 ! 36) div 16 = 1" "unat (d2 ! 36) mod 16 = 2"
    and hint: "unat (d2 ! 5) = 51 \<or>
       unat (d2 ! 5) \<noteq> 49 \<and> unat (d2 ! 5) \<noteq> 50 \<and> hvs_batt_type_from_serial s \<noteq> ''LVS''"
    and rest: "45 \<le> length d3" "6 \<le> length d4" "unat (d4 ! 5) = 2" "61 \<le> length d7"
  shows "\<exists>s' tr'. poll s tr = (None, s', tr') \<and> state s' = 0 \<and>
           state_action_list s' = [2, 3, 4, 5, 6, 7, 8, 9, 10] \<and>
           hvs_num_cells s' = 64 \<and> hvs_num_temps s' = 24 \<and>
           length (tower_attributes s') = 1 \<and>
           t_cell_voltages (tower_attributes s' ! 0) =
             cell_block d7 101 16 @ cell_block d8 5 48 @ cell_block d9 5 (- 16) \<and>
           t_cell_temperatures (tower_attributes s' ! 0) =
             map unat (py_slice d9 103 127) @ map unat (py_slice d10 5 (- 1))"
proof -
  let ?ds = "[d2, d3, d4, d5, d6, d7, d8, d9, d10]"
  let ?s2 = "s\<lparr>state := 1, current_tower := 0, state_action_list := [],
                reader := True, writer := True, state := 2\<rparr>"
  let ?tr2 = "tr\<lparr>is_open := True\<rparr>"
  have v: "s_state (summary_of ?s2) = 2" "s_tower (summary_of ?s2) = 0"
      "s_trace (summary_of ?s2) = []"
    by simp_all
  have hint': "unat (d2 ! 5) = 51 \<or>
       unat (d2 ! 5) \<noteq> 49 \<and> unat (d2 ! 5) \<noteq> 50 \<and> s_hint (summary_of ?s2) \<noteq> ''LVS''"
    using hint by simp
  note run = abs_run_one_tower [OF v ok [THEN check_packet_accepted] ident hint' rest]
  have "reader ?s2" and "feeds (recvs ?tr2) ?ds"
    using fd by simp_all
  from poll_loop_follows [OF this run(1)]
  obtain s3 tr3 where loop: "poll_loop ?s2 ?tr2 = poll_loop s3 tr3"
    and sum: "summary_of s3 = abs_run (summary_of ?s2) ?ds"
    and line: "line tr3 = line ?tr2"
    by blast
  have s3: "state s3 = 0" "state_action_list s3 = [2, 3, 4, 5, 6, 7, 8, 9, 10]"
      "hvs_num_cells s3 = 64" "hvs_num_temps s3 = 24" "writer s3"
    using run(2-5,7) arg_cong [OF sum, of s_state] arg_cong [OF sum, of s_trace]
      arg_cong [OF sum, of s_num_cells] arg_cong [OF sum, of s_num_temps]
      arg_cong [OF sum, of s_writer]
    by simp_all
  have cells: "s_cells (summary_of s3) =
      [(cell_block d7 101 16 @ cell_block d8 5 48 @ cell_block d9 5 (- 16),
        map unat (py_slice d9 103 127) @ map unat (py_slice d10 5 (- 1)))]"
    using run(6) sum by simp
  have "poll_loop s3 tr3 = (None, s3, tr3)"
    using s3(1) by (rule poll_loop_unfold(3))
  then have "poll s tr =
      (None, s3\<lparr>reader := False, writer := False, state := 0\<rparr>, tr3\<lparr>is_open := False\<rparr>)"
    using st tr loop line s3(5) by (simp add: poll_def connect_def close_def line_def)
  then show ?thesis
    using s3 summary_cells_single [OF cells] by simp
qed

lemma abs_run_to_state7:
  assumes v: "s_state v = 2" "s_tower v = 0" "s_trace v = []"
    and ok: "accepted (Some d2)" "accepted (Some d3)" "accepted (Some d4)"
      "accepted (Some d5)" "accepted (Some d6)"
    and ident: "39 \<le> length d2" "list_all (\<lambda>b. unat b < 128) (py_slice d2 3 22)"
      "unat (d2 ! 36) div 16 = 1" "unat (d2 ! 36) mod 16 = 2"
    and hint: "unat (d2 ! 5) = 51 \<or>
       unat (d2 ! 5) \<noteq> 49 \<and> unat (d2 ! 5) \<noteq> 50 \<and> s_hint v \<noteq> ''LVS''"
    and rest: "45 \<le> length d3" "6 \<le> length d4" "unat (d4 ! 5) = 2"
  shows "run_ok v [d2, d3, d4, d5, d6]"
    and "s_state (abs_run v [d2, d3, d4, d5, d6]) = 7"
    and "s_tower (abs_run v [d2, d3, d4, d5, d6]) = 0"
    and "s_cells (abs_run v [d2, d3, d4, d5, d6]) = [([], [])]"
proof -
  define v3 where "v3 = abs_step d2 v"
  have v3: "s_state v3 = 3" "s_tower v3 = 0" "s_modules v3 = 2" "s_hint v3 \<noteq> ''LVS''"
      "s_cells v3 = [([], [])]"
    using v ident hint by (auto simp add: v3_def abs_step_def Let_def)
  define v4 where "v4 = abs_step d3 v3"
  have v4: "s_state v4 = 4" "s_tower v4 = 0" "s_modules v4 = 2" "s_hint v4 \<noteq> ''LVS''"
      "s_cells v4 = [([], [])]"
    using v3 by (simp_all add: v4_def abs_step_def Let_def)
  define v5 where "v5 = abs_step d4 v4"
  have v5: "s_state v5 = 5" "s_tower v5 = 0" "s_cells v5 = [([], [])]"
    using v4 rest
    by (simp_all add: v5_def abs_step_def Let_def module_counts_def batt_type_map_def
          MAX_CELLS_def MAX_TEMPS_def)
  define v6 where "v6 = abs_step d5 v5"
  have v6: "s_state v6 = 6" "s_tower v6 = 0" "s_cells v6 = [([], [])]"
    using v5 by (simp_all add: v6_def abs_step_def Let_def)
  define v7 where "v7 = abs_step d6 v6"
  have v7: "s_state v7 = 7" "s_tower v7 = 0" "s_cells v7 = [([], [])]"
    using v6 by (simp_all add: v7_def abs_step_def Let_def)
  have run: "abs_run v [d2, d3, d4, d5, d6] = v7"
    by (simp add: v3_def v4_def v5_def v6_def v7_def)
  show "run_ok v [d2, d3, d4, d5, d6]"
    using ok ident rest v v3 v4 v5 v6
    by (simp add: decodable_def
          v3_def [symmetric] v4_def [symmetric] v5_def [symmetric] v6_def [symmetric])
  show "s_state (abs_run v [d2, d3, d4, d5, d6]) = 7"
    and "s_tower (abs_run v [d2, d3, d4, d5, d6]) = 0"
    and "s_cells (abs_run v [d2, d3, d4, d5, d6]) = [([], [])]"
    unfolding run using v7 by simp_all
qed

text \<open>
  A cycle that reaches state 7, where the decoder raises on the accepted reply: the
  exception leaves \<^verbatim>\<open>poll\<close>, and the connection stays open.
\<close>

lemma poll_raises_at_state7:
  assumes st: "state s = 0"
    and tr: "connect_result tr = Connected"
    and fd: "feeds (recvs tr) [d2, d3, d4, d5, d6, d7]"
    and ok: "check_packet d2" "check_packet d3" "check_packet d4" "check_packet d5"
      "check_packet d6"
    and ok7: "check_packet d7"
    and ident: "39 \<le> length d2" "list_all (\<lambda>b. unat b < 128) (py_slice d2 3 22)"
      "unat (d2 ! 36) div 16 = 1" "unat (d2 ! 36) mod 16 = 2"
    and hint: "unat (d2 ! 5) = 51 \<or>
       unat (d2 ! 5) \<noteq> 49 \<and> unat (d2 ! 5) \<noteq> 50 \<and> hvs_batt_type_from_serial s \<noteq> ''LVS''"
    and rest: "45 \<le> length d3" "6 \<le> length d4" "unat (d4 ! 5) = 2"
    and bad: "\<And>x. length (tower_attributes x) = 1 \<Longrightarrow> fst (parse_packet5 d7 0 x) = Some e"
  shows "\<exists>s' tr'. poll s tr = (Some e, s', tr') \<and> reader s' \<and> writer s' \<and> is_open tr'"
proof -
  let ?ds = "[d2, d3, d4, d5, d6]"
  let ?s2 = "s\<lparr>state := 1, current_tower := 0, state_action_list := [],
                reader := True, writer := True, state := 2\<rparr>"
  let ?tr2 = "tr\<lparr>is_open := True\<rparr>"
  have v: "s_state (summary_of ?s2) = 2" "s_tower (summary_of ?s2) = 0"
      "s_trace (summary_of ?s2) = []"
    by simp_all
  have hint': "unat (d2 ! 5) = 51 \<or>
       unat (d2 ! 5) \<noteq> 49 \<and> unat (d2 ! 5) \<noteq> 50 \<and> s_hint (summary_of ?s2) \<noteq> ''LVS''"
    using hint by simp
  note run = abs_run_to_state7 [OF v ok [THEN check_packet_accepted] ident hint' rest]
  have "reader ?s2" and "feeds (recvs ?tr2) ?ds"
    using fd by simp_all
  from poll_loop_follows [OF this run(1)]
  obtain s3 tr3 where loop: "poll_loop ?s2 ?tr2 = poll_loop s3 tr3"
    and sum: "summary_of s3 = abs_run (summary_of ?s2) ?ds"
    and rc: "recvs tr3 = (\<lambda>n. recvs ?tr2 (n + length ?ds))"
    by blast
  have s3: "state s3 = 7" "current_tower s3 = 0" "reader s3"
    using run(2,3) arg_cong [OF sum, of s_state] arg_cong [OF sum, of s_tower]
      arg_cong [OF sum, of s_reader]
    by simp_all
  have towers: "length (tower_attributes s3) = 1"
    using run(4) sum by (intro summary_cells_single(1)) simp
  have next_reply: "recvs tr3 0 = Data d7"
    using rc feeds_nth [OF fd, of 5] by (simp add: eval_nat_numeral)
  have "fst (parse_packet5 d7 (current_tower s3) x) = Some e"
    if "length (tower_attributes x) = length (tower_attributes s3)" for x
    using that towers s3(2) bad [of x] by simp
  with s3(1,3) next_reply check_packet_accepted [OF ok7]
  have "fst (poll_loop s3 tr3) = Some e"
    by (rule state7_raises)
  then obtain s4 tr4 where end_loop: "poll_loop ?s2 ?tr2 = (Some e, s4, tr4)"
    using loop by (cases "poll_loop s3 tr3") simp
  from poll_loop_result [OF end_loop]
  have "reader s4" "writer s4" "is_open tr4"
    by (simp_all add: link_def line_def)
  moreover have "poll s tr = (Some e, s4, tr4)"
    using st tr end_loop by (simp add: poll_def connect_def)
  ultimately show ?thesis
    by simp
qed

section \<open>Replies of a device\<close>

text \<open>
  Replies as a device with one tower of two HVS modules sends them, each closed by its
  checksum: the identity (serial number of characters 3, byte 36 equal to 0x12), the
  status, the battery information (type 2), the acknowledgement of a write, the
  measurement status and a block of cell readings.
\<close>

definition identity_reply :: "byte list" where
  "identity_reply =
     mk_frame ([0x01, 0x03, 0xcc] @ replicate 33 0x33 @ [0x12] @ replicate 170 0x00)"

definition status_reply :: "byte list" where
  "status_reply = mk_frame ([0x01, 0x03, 0x32] @ replicate 50 0x00)"

definition battery_info_reply :: "byte list" where
  "battery_info_reply = mk_frame [0x01, 0x03, 0x06, 0x00, 0x00, 0x02, 0x00, 0x00, 0x00]"

definition write_reply :: "byte list" where
  "write_reply = mk_frame [0x01, 0x10, 0x05, 0x50, 0x00, 0x02]"

definition measurement_reply :: "byte list" where
  "measurement_reply = mk_frame [0x01, 0x03, 0x02, 0x00, 0x00]"

definition cell_reply :: "byte list" where
  "cell_reply = mk_frame ([0x01, 0x03, 0x82] @ replicate 130 0x00)"

text \<open>The reads return the given replies in turn, and time out after the last.\<close>

definition reply_stream :: "byte list list \<Rightarrow> nat \<Rightarrow> recv_result" where
  "reply_stream ds n = (if n < length ds then Data (ds ! n) else RecvTimeout)"

definition device :: "byte list list \<Rightarrow> transport" where
  "device ds =
     \<lparr> connect_result = Connected, sends = (\<lambda>n. Sent), recvs = reply_stream ds,
       close_result = Closed, is_open = False, written = [] \<rparr>"

lemma reply_stream_Cons: "(\<lambda>n. reply_stream (d # ds) (Suc n)) = reply_stream ds"
  by (simp add: reply_stream_def fun_eq_iff)

lemma feeds_reply_stream: "feeds (reply_stream ds) ds"
  by (induction ds) (simp_all add: reply_stream_Cons, simp add: reply_stream_def)

lemma feeds_take: "feeds r ds \<Longrightarrow> feeds r (take n ds)"
proof (induction ds arbitrary: r n)
  case Nil
  then show ?case by simp
next
  case (Cons d ds)
  then show ?case by (cases n) simp_all
qed

lemma identity_reply_valid: "check_packet identity_reply"
  by (simp add: identity_reply_def check_packet_mk_frame)

lemma identity_reply_facts:
  "39 \<le> length identity_reply"
  "list_all (\<lambda>b. unat b < 128) (py_slice identity_reply 3 22)"
  "unat (identity_reply ! 36) div 16 = 1"
  "unat (identity_reply ! 36) mod 16 = 2"
  "unat (identity_reply ! 5) = 51"
  by (simp_all add: identity_reply_def length_mk_frame nth_mk_frame
        nth_append py_slice_def slice_index_def mk_frame_def list_all_iff)

lemma status_reply_facts:
  "check_packet status_reply" "45 \<le> length status_reply"
  by (simp_all add: status_reply_def check_packet_mk_frame length_mk_frame)

lemma battery_info_reply_facts:
  "check_packet battery_info_reply" "6 \<le> length battery_info_reply"
  "unat (battery_info_reply ! 5) = 2"
  by (simp_all add: battery_info_reply_def check_packet_mk_frame length_mk_frame
        nth_mk_frame)

lemma write_reply_facts: "check_packet write_reply"
  by (simp add: write_reply_def check_packet_mk_frame)

lemma measurement_reply_facts: "check_packet measurement_reply"
  by (simp add: measurement_reply_def check_packet_mk_frame)

lemma cell_reply_facts:
  "check_packet cell_reply" "61 \<le> length cell_reply" "length cell_reply = 135"
  by (simp_all add: cell_reply_def check_packet_mk_frame length_mk_frame)

lemma length_py_slice:
  "length (py_slice xs lo hi) =
     slice_index (length xs) hi - slice_index (length xs) lo"
  by (auto simp add: py_slice_def slice_index_def Let_def)

text \<open>The replies of a complete cycle on such a device, in the order of the states.\<close>

definition cycle_replies :: "byte list list" where
  "cycle_replies =
     [identity_reply, status_reply, battery_info_reply, write_reply, measurement_reply,
      cell_reply, cell_reply, cell_reply, cell_reply]"

text \<open>An accepted reply to the first cell request that ends after byte 16.\<close>

definition truncated_reply :: "byte list" where
  "truncated_reply = mk_frame ([0x01, 0x03, 0x0c] @ replicate 12 0x00)"

text \<open>The acknowledgement of a write of no registers: five bytes.\<close>

definition short_reply :: "byte list" where
  "short_reply = [0x01, 0x10, 0x00, 0x2d, 0xc0]"

lemma truncated_reply_facts: "check_packet truncated_reply" "length truncated_reply = 17"
  by (simp_all add: truncated_reply_def check_packet_mk_frame length_mk_frame)

lemma short_reply_facts: "check_packet short_reply" "length short_reply = 5"
  by (simp_all add: short_reply_def check_packet_def CRC16_def crc_update_def crc_shift_def)

lemma device_sel [simp]:
  "connect_result (device ds) = Connected"
  "close_result (device ds) = Closed"
  by (simp_all add: device_def)

lemma feeds_device: "feeds (recvs (device ds)) ds"
  by (simp add: device_def feeds_reply_stream)

lemma feeds_cycle:
  "feeds (recvs (device cycle_replies))
     [identity_reply, status_reply, battery_info_reply, write_reply, measurement_reply,
      cell_reply, cell_reply, cell_reply, cell_reply]"
  using feeds_device [of cycle_replies] by (simp only: cycle_replies_def)

lemma init_bydhvs_sel [simp]:
  "state init_bydhvs = 0" "hvs_batt_type_from_serial init_bydhvs = []"
  by (simp_all add: init_bydhvs_def)

text \<open>
  Claim C9 as stated fails where an accepted reply is shorter than its decoder needs.
  Every reply validates, the identity reply declares one tower of two modules and the
  battery information type 2; the reply to the first cell request carries twelve data
  bytes, so \<^verbatim>\<open>data[17:33]\<close> is empty and \<^verbatim>\<open>int('', 16)\<close> raises ValueError in
  state 7: the cycle has no states 8, 9 and 10 and does not end in state 0.
\<close>

theorem truncated_reply_aborts_cycle:
  "list_all check_packet
     [identity_reply, status_reply, battery_info_reply, write_reply, measurement_reply,
      truncated_reply] \<and>
   unat (identity_reply ! 36) div 16 = 1 \<and> unat (identity_reply ! 36) mod 16 = 2 \<and>
   unat (identity_reply ! 5) = 51 \<and> unat (battery_info_reply ! 5) = 2 \<and>
   (\<exists>s' tr'. poll init_bydhvs
       (device [identity_reply, status_reply, battery_info_reply, write_reply,
                measurement_reply, truncated_reply]) = (Some ValueError, s', tr'))"
proof -
  let ?ds = "[identity_reply, status_reply, battery_info_reply, write_reply,
              measurement_reply, truncated_reply]"
  have bad: "fst (parse_packet5 truncated_reply 0 x) = Some ValueError"
    if "length (tower_attributes x) = 1" for x
    using that by (intro parse_packet5_no_flags truncated_reply_facts) simp
  have "\<exists>s' tr'. poll init_bydhvs (device ?ds) = (Some ValueError, s', tr') \<and>
          reader s' \<and> writer s' \<and> is_open tr'"
    by (rule poll_raises_at_state7 [where ?d2.0 = identity_reply and ?d3.0 = status_reply
            and ?d4.0 = battery_info_reply and ?d5.0 = write_reply
            and ?d6.0 = measurement_reply and ?d7.0 = truncated_reply])
       (simp_all del: feeds.simps add: feeds_device identity_reply_valid identity_reply_facts
          status_reply_facts battery_info_reply_facts write_reply_facts
          measurement_reply_facts truncated_reply_facts bad)
  then show ?thesis
    by (auto simp add: identity_reply_valid identity_reply_facts status_reply_facts
          battery_info_reply_facts write_reply_facts measurement_reply_facts
          truncated_reply_facts)
qed

text \<open>
  Claim C9, amended. For a call of \<^verbatim>\<open>poll\<close> from state 0 on which the connection
  opens and closes without a fault and the nine reads return replies that all validate,
  where moreover the replies are as long as their decoders need (39 bytes with an ASCII
  serial number for the identity, 45 for the status, 6 for the battery information, 61 for
  the first cell block), the identity reply declares one tower of two modules without
  the LVS hint and the battery information declares type 2: \<^verbatim>\<open>poll\<close> returns with
  exactly one tower, 64 cells and 24 temperatures, the states visited are 2 to 10, each
  once, and the state is 0.
\<close>

theorem two_module_cycle:
  assumes "state s = 0"
    and "connect_result tr = Connected" "close_result tr = Closed"
    and "feeds (recvs tr) [d2, d3, d4, d5, d6, d7, d8, d9, d10]"
    and "check_packet d2" "check_packet d3" "check_packet d4" "check_packet d5"
      "check_packet d6" "check_packet d7" "check_packet d8" "check_packet d9"
      "check_packet d10"
    and "39 \<le> length d2" "list_all (\<lambda>b. unat b < 128) (py_slice d2 3 22)"
      "unat (d2 ! 36) div 16 = 1" "unat (d2 ! 36) mod 16 = 2"
    and "unat (d2 ! 5) = 51 \<or>
       unat (d2 ! 5) \<noteq> 49 \<and> unat (d2 ! 5) \<noteq> 50 \<and> hvs_batt_type_from_serial s \<noteq> ''LVS''"
    and "45 \<le> length d3" "6 \<le> length d4" "unat (d4 ! 5) = 2" "61 \<le> length d7"
  shows "\<exists>s' tr'. poll s tr = (None, s', tr') \<and>
           length (tower_attributes s') = 1 \<and>
           hvs_num_cells s' = 64 \<and> hvs_num_temps s' = 24 \<and>
           state_action_list s' = [2, 3, 4, 5, 6, 7, 8, 9, 10] \<and> state s' = 0 \<and>
           length (t_cell_voltages (tower_attributes s' ! 0)) = 64"
proof -
  from poll_one_tower [OF assms]
  obtain s' tr' where run: "poll s tr = (None, s', tr')" "state s' = 0"
      "state_action_list s' = [2, 3, 4, 5, 6, 7, 8, 9, 10]"
      "hvs_num_cells s' = 64" "hvs_num_temps s' = 24" "length (tower_attributes s') = 1"
      "t_cell_voltages (tower_attributes s' ! 0) =
         cell_block d7 101 16 @ cell_block d8 5 48 @ cell_block d9 5 (- 16)"
    by blast
  have "length (t_cell_voltages (tower_attributes s' ! 0)) = 64"
    unfolding run(7) by (simp add: cell_block_def)
  with run show ?thesis
    by blast
qed

theorem two_module_cycle_witness:
  "state init_bydhvs = 0 \<and> feeds (recvs (device cycle_replies)) cycle_replies \<and>
   list_all check_packet cycle_replies \<and>
   (\<exists>s' tr'. poll init_bydhvs (device cycle_replies) = (None, s', tr') \<and>
      length (tower_attributes s') = 1 \<and>
      hvs_num_cells s' = 64 \<and> hvs_num_temps s' = 24 \<and>
      state_action_list s' = [2, 3, 4, 5, 6, 7, 8, 9, 10] \<and> state s' = 0 \<and>
      length (t_cell_voltages (tower_attributes s' ! 0)) = 64)"
proof -
  show ?thesis
    using two_module_cycle [of init_bydhvs "device cycle_replies" identity_reply
        status_reply battery_info_reply write_reply measurement_reply cell_reply
        cell_reply cell_reply cell_reply] feeds_cycle
      identity_reply_valid identity_reply_facts status_reply_facts
      battery_info_reply_facts write_reply_facts measurement_reply_facts cell_reply_facts
    by (simp del: feeds.simps add: cycle_replies_def)
qed

text \<open>
  Claim C5 fails in the code on the temperatures. The totals are clamped by
  \<^verbatim>\<open>_parse_packet2\<close>, and a tower never holds more than 160 voltages; but with 24
  temperatures \<^verbatim>\<open>_parse_packet8\<close> computes \<^verbatim>\<open>max_temps = min(24 - 30, 34) = -6\<close> and
  extends the list by \<^verbatim>\<open>data[5:-1]\<close>, all of the reply but its first five bytes and
  its last: in the cycle of claim C9 on replies of 135 bytes the tower ends with
  24 + 129 = 153 temperatures, more than the maximum of 64.
\<close>

theorem temperatures_exceed_maximum:
  "\<exists>s' tr'. poll init_bydhvs (device cycle_replies) = (None, s', tr') \<and>
     hvs_num_temps s' = 24 \<and>
     length (t_cell_temperatures (tower_attributes s' ! 0)) = 153"
proof -
  have "\<exists>s' tr'. poll init_bydhvs (device cycle_replies) = (None, s', tr') \<and> state s' = 0 \<and>
           state_action_list s' = [2, 3, 4, 5, 6, 7, 8, 9, 10] \<and>
           hvs_num_cells s' = 64 \<and> hvs_num_temps s' = 24 \<and>
           length (tower_attributes s') = 1 \<and>
           t_cell_voltages (tower_attributes s' ! 0) =
             cell_block cell_reply 101 16 @ cell_block cell_reply 5 48 @
             cell_block cell_reply 5 (- 16) \<and>
           t_cell_temperatures (tower_attributes s' ! 0) =
             map unat (py_slice cell_reply 103 127) @ map unat (py_slice cell_reply 5 (- 1))"
    by (rule poll_one_tower [where ?d2.0 = identity_reply and ?d3.0 = status_reply
            and ?d4.0 = battery_info_reply and ?d5.0 = write_reply
            and ?d6.0 = measurement_reply])
       (simp_all del: feeds.simps add: feeds_cycle identity_reply_valid identity_reply_facts status_reply_facts
          battery_info_reply_facts write_reply_facts measurement_reply_facts
          cell_reply_facts)
  then obtain s' tr' where run: "poll init_bydhvs (device cycle_replies) = (None, s', tr')"
      "hvs_num_temps s' = 24"
      "t_cell_temperatures (tower_attributes s' ! 0) =
         map unat (py_slice cell_reply 103 127) @ map unat (py_slice cell_reply 5 (- 1))"
    by blast
  have "length (t_cell_temperatures (tower_attributes s' ! 0)) = 153"
    unfolding run(3)
    by (simp add: length_py_slice slice_index_def cell_reply_facts)
  with run show ?thesis
    by blast
qed

text \<open>
  Claim C10. The frame 01 10 00 2d c0 of five bytes is accepted by \<^verbatim>\<open>_check_packet\<close>
  (unit 1, function code 16, checksum 0); \<^verbatim>\<open>_parse_packet5\<close> raises IndexError on it
  for every tower index and object (at \<^verbatim>\<open>data[9]\<close>, or at the tower lookup); and a
  cycle whose reply in state 7 is this frame ends with that IndexError leaving
  \<^verbatim>\<open>poll\<close>, reader and writer still set and the connection open.
\<close>

theorem accepted_reply_raises:
  "check_packet short_reply \<and> length short_reply = 5 \<and>
   fst (parse_packet5 short_reply n s) = Some IndexError \<and>
   (\<exists>s' tr'. poll init_bydhvs
       (device [identity_reply, status_reply, battery_info_reply, write_reply,
                measurement_reply, short_reply]) = (Some IndexError, s', tr') \<and>
      reader s' \<and> writer s' \<and> is_open tr')"
proof -
  let ?ds = "[identity_reply, status_reply, battery_info_reply, write_reply,
              measurement_reply, short_reply]"
  have bad: "fst (parse_packet5 short_reply n s) = Some IndexError" for n s
    by (rule parse_packet5_short) (simp add: short_reply_facts)
  have "\<exists>s' tr'. poll init_bydhvs (device ?ds) = (Some IndexError, s', tr') \<and>
          reader s' \<and> writer s' \<and> is_open tr'"
    by (rule poll_raises_at_state7 [where ?d2.0 = identity_reply and ?d3.0 = status_reply
            and ?d4.0 = battery_info_reply and ?d5.0 = write_reply
            and ?d6.0 = measurement_reply and ?d7.0 = short_reply])
       (simp_all del: feeds.simps add: feeds_device identity_reply_valid identity_reply_facts
          status_reply_facts battery_info_reply_facts write_reply_facts
          measurement_reply_facts short_reply_facts bad)
  then show ?thesis
    using bad short_reply_facts by simp
qed

end
